theory Spec2Isabelle
  imports Main "HOL-Library.Sublist"
begin

section \<open>Python strings\<close>

text \<open>
  A Python \<open>str\<close> is a sequence of Unicode code points; it is modelled as a list of
  natural numbers, one per code point.  ASCII literals of the source are written with
  \<open>asc\<close>; the Cyrillic keywords are written out as code points.
\<close>

type_synonym pystr = "nat list"

definition asc :: "string \<Rightarrow> pystr" where
  "asc s = map of_char s"

text \<open>\<open>x in s\<close> on strings: \<open>x\<close> occurs in \<open>s\<close> as a contiguous block.\<close>

definition py_in :: "pystr \<Rightarrow> pystr \<Rightarrow> bool" where
  "py_in x s = sublist x s"

text \<open>
  The code points that \<open>str.isspace\<close> accepts; \<open>str.strip()\<close> removes exactly these from
  both ends.
\<close>

definition is_space :: "nat \<Rightarrow> bool" where
  "is_space c \<longleftrightarrow>
     (9 \<le> c \<and> c \<le> 13) \<or> (28 \<le> c \<and> c \<le> 32) \<or> c = 133 \<or> c = 160 \<or> c = 5760 \<or>
     (8192 \<le> c \<and> c \<le> 8202) \<or> c = 8232 \<or> c = 8233 \<or> c = 8239 \<or> c = 8287 \<or> c = 12288"

definition py_strip :: "pystr \<Rightarrow> pystr" where
  "py_strip s = rev (dropWhile is_space (rev (dropWhile is_space s)))"

text \<open>
  \<open>str.lower()\<close>, one code point at a time, on the Basic Latin, Latin-1 and Cyrillic
  capital letters (U+0041..U+005A, U+00C0..U+00DE without U+00D7, U+0400..U+042F).
  Every other code point is left as it is: the case tables of the remaining Unicode
  blocks are not reproduced here.
\<close>

definition lower_cp :: "nat \<Rightarrow> nat" where
  "lower_cp c =
     (if 65 \<le> c \<and> c \<le> 90 then c + 32
      else if 192 \<le> c \<and> c \<le> 222 \<and> c \<noteq> 215 then c + 32
      else if 1024 \<le> c \<and> c \<le> 1039 then c + 80
      else if 1040 \<le> c \<and> c \<le> 1071 then c + 32
      else c)"

definition py_lower :: "pystr \<Rightarrow> pystr" where
  "py_lower s = map lower_cp s"

section \<open>XML elements\<close>

text \<open>
  An \<open>xml.etree.ElementTree.Element\<close> as the code uses it: a tag, an optional text
  (\<open>None\<close> in Python when the element has no character data) and the child elements in
  document order.
\<close>

datatype elem = Elem (tag: pystr) (text_of: "pystr option") (children: "elem list")

text \<open>\<open>element.find(name)\<close> for a plain tag name: the first direct child with that tag.\<close>

definition find_child :: "elem \<Rightarrow> pystr \<Rightarrow> elem option" where
  "find_child e name = List.find (\<lambda>c. tag c = name) (children e)"

text \<open>All proper descendants of an element, in document order.\<close>

fun descendants :: "elem \<Rightarrow> elem list" where
  "descendants (Elem t x cs) = concat (map (\<lambda>c. c # descendants c) cs)"

text \<open>\<open>element.findall('.//name')\<close>: every descendant with that tag, in document order.\<close>

definition findall_desc :: "elem \<Rightarrow> pystr \<Rightarrow> elem list" where
  "findall_desc e name = filter (\<lambda>c. tag c = name) (descendants e)"

section \<open>Field coercion\<close>

text \<open>
  \<open>safe_text\<close> of the first variant (boba.py): the stripped text, or the default when the
  element or its text is \<open>None\<close>.
\<close>

definition safe_text :: "elem option \<Rightarrow> pystr \<Rightarrow> pystr" where
  "safe_text element dflt =
     (case element of
        None \<Rightarrow> dflt
      | Some e \<Rightarrow> (case text_of e of None \<Rightarrow> dflt | Some t \<Rightarrow> py_strip t))"

text \<open>
  \<open>safe_text\<close> of the second variant (proektMAI.py):
  \<open>return element.text if element is not None else default\<close>.  The result is the raw
  text attribute, which is \<open>None\<close> for an element without text.
\<close>

definition safe_text_mai :: "elem option \<Rightarrow> pystr option \<Rightarrow> pystr option" where
  "safe_text_mai element dflt =
     (case element of None \<Rightarrow> dflt | Some e \<Rightarrow> text_of e)"

text \<open>\<open>safe_bool\<close>, the same in both variants; \<open>None\<close> is Python's \<open>None\<close>.\<close>

definition safe_bool :: "elem option \<Rightarrow> bool option" where
  "safe_bool element =
     (case element of
        None \<Rightarrow> None
      | Some e \<Rightarrow>
          (case text_of e of
             None \<Rightarrow> None
           | Some t \<Rightarrow>
               (let txt = py_strip t in
                if txt = asc ''1'' then Some True
                else if txt = asc ''0'' then Some False
                else None)))"

section \<open>Keyword tables of the classifier\<close>

text \<open>
  The literals of \<open>process_organization\<close> and \<open>process_program\<close> in boba.py, as code
  points (Cyrillic small letters are U+0430..U+044F, that is 1072..1103).
\<close>

text \<open>
  The markers of the first test of \<open>process_organization\<close> (schools).
  In the order of the source: shkola (school), litsey (lyceum), gimnaziya (gymnasium), sredneye obshcheobrazovatelnoye, srednyaya obshcheobrazovatelnaya.
\<close>

definition school_markers :: "pystr list" where
  "school_markers =
     [[1096, 1082, 1086, 1083, 1072],
      [1083, 1080, 1094, 1077, 1081],
      [1075, 1080, 1084, 1085, 1072, 1079, 1080, 1103],
      [1089, 1088, 1077, 1076, 1085, 1077, 1077, 32, 1086, 1073, 1097, 1077, 1086, 1073,
       1088, 1072, 1079, 1086, 1074, 1072, 1090, 1077, 1083, 1100, 1085, 1086, 1077],
      [1089, 1088, 1077, 1076, 1085, 1103, 1103, 32, 1086, 1073, 1097, 1077, 1086, 1073,
       1088, 1072, 1079, 1086, 1074, 1072, 1090, 1077, 1083, 1100, 1085, 1072, 1103]]"

text \<open>
  The markers of the second test (higher education).
  In the order of the source: vuz, universitet, institut, vyssheye uchebnoye zavedeniye, akademiya, federalnoye gosudarstvennoye, gosudarstvennoye obrazovatelnoye, natsionalnyy issledovatelskiy, tekhnologicheskiy universitet, vyssheye obrazovaniye, byudzhetnoye obrazovatelnoye uchrezhdeniye, avtonomnoye obrazovatelnoye uchrezhdeniye, gosudarstvennyy universitet.
\<close>

definition higher_markers :: "pystr list" where
  "higher_markers =
     [[1074, 1091, 1079],
      [1091, 1085, 1080, 1074, 1077, 1088, 1089, 1080, 1090, 1077, 1090],
      [1080, 1085, 1089, 1090, 1080, 1090, 1091, 1090],
      [1074, 1099, 1089, 1096, 1077, 1077, 32, 1091, 1095, 1077, 1073, 1085, 1086, 1077,
       32, 1079, 1072, 1074, 1077, 1076, 1077, 1085, 1080, 1077],
      [1072, 1082, 1072, 1076, 1077, 1084, 1080, 1103],
      [1092, 1077, 1076, 1077, 1088, 1072, 1083, 1100, 1085, 1086, 1077, 32, 1075, 1086,
       1089, 1091, 1076, 1072, 1088, 1089, 1090, 1074, 1077, 1085, 1085, 1086, 1077],
      [1075, 1086, 1089, 1091, 1076, 1072, 1088, 1089, 1090, 1074, 1077, 1085, 1085, 1086,
       1077, 32, 1086, 1073, 1088, 1072, 1079, 1086, 1074, 1072, 1090, 1077, 1083, 1100,
       1085, 1086, 1077],
      [1085, 1072, 1094, 1080, 1086, 1085, 1072, 1083, 1100, 1085, 1099, 1081, 32, 1080,
       1089, 1089, 1083, 1077, 1076, 1086, 1074, 1072, 1090, 1077, 1083, 1100, 1089, 1082,
       1080, 1081],
      [1090, 1077, 1093, 1085, 1086, 1083, 1086, 1075, 1080, 1095, 1077, 1089, 1082, 1080,
       1081, 32, 1091, 1085, 1080, 1074, 1077, 1088, 1089, 1080, 1090, 1077, 1090],
      [1074, 1099, 1089, 1096, 1077, 1077, 32, 1086, 1073, 1088, 1072, 1079, 1086, 1074,
       1072, 1085, 1080, 1077],
      [1073, 1102, 1076, 1078, 1077, 1090, 1085, 1086, 1077, 32, 1086, 1073, 1088, 1072,
       1079, 1086, 1074, 1072, 1090, 1077, 1083, 1100, 1085, 1086, 1077, 32, 1091, 1095,
       1088, 1077, 1078, 1076, 1077, 1085, 1080, 1077],
      [1072, 1074, 1090, 1086, 1085, 1086, 1084, 1085, 1086, 1077, 32, 1086, 1073, 1088,
       1072, 1079, 1086, 1074, 1072, 1090, 1077, 1083, 1100, 1085, 1086, 1077, 32, 1091,
       1095, 1088, 1077, 1078, 1076, 1077, 1085, 1080, 1077],
      [1075, 1086, 1089, 1091, 1076, 1072, 1088, 1089, 1090, 1074, 1077, 1085, 1085, 1099,
       1081, 32, 1091, 1085, 1080, 1074, 1077, 1088, 1089, 1080, 1090, 1077, 1090]]"

text \<open>
  The markers looked for in the level name of each program.
  In the order of the source: bakalavriat, magistratura, spetsialitet, aspirantura.
\<close>

definition higher_level_markers :: "pystr list" where
  "higher_level_markers =
     [[1073, 1072, 1082, 1072, 1083, 1072, 1074, 1088, 1080, 1072, 1090],
      [1084, 1072, 1075, 1080, 1089, 1090, 1088, 1072, 1090, 1091, 1088, 1072],
      [1089, 1087, 1077, 1094, 1080, 1072, 1083, 1080, 1090, 1077, 1090],
      [1072, 1089, 1087, 1080, 1088, 1072, 1085, 1090, 1091, 1088, 1072]]"

definition kw_litsey :: pystr where \<comment> \<open>litsey, the second school marker\<close>
  "kw_litsey = [1083, 1080, 1094, 1077, 1081]"

definition kw_kolledzh :: pystr where \<comment> \<open>kolledzh (college)\<close>
  "kw_kolledzh = [1082, 1086, 1083, 1083, 1077, 1076, 1078]"

definition kw_tekhnikum :: pystr where \<comment> \<open>tekhnikum (technical school)\<close>
  "kw_tekhnikum = [1090, 1077, 1093, 1085, 1080, 1082, 1091, 1084]"

definition kw_bakalavr :: pystr where \<comment> \<open>bakalavr (bachelor)\<close>
  "kw_bakalavr = [1073, 1072, 1082, 1072, 1083, 1072, 1074, 1088]"

definition kw_magistr :: pystr where \<comment> \<open>magistr (master)\<close>
  "kw_magistr = [1084, 1072, 1075, 1080, 1089, 1090, 1088]"

definition kw_spetsialist :: pystr where \<comment> \<open>spetsialist (specialist)\<close>
  "kw_spetsialist = [1089, 1087, 1077, 1094, 1080, 1072, 1083, 1080, 1089, 1090]"

definition kw_aspirant :: pystr where \<comment> \<open>aspirant (postgraduate)\<close>
  "kw_aspirant = [1072, 1089, 1087, 1080, 1088, 1072, 1085, 1090]"

definition kw_ochnaya :: pystr where \<comment> \<open>ochnaya (full-time)\<close>
  "kw_ochnaya = [1086, 1095, 1085, 1072, 1103]"

definition kw_zaochnaya :: pystr where \<comment> \<open>zaochnaya (part-time)\<close>
  "kw_zaochnaya = [1079, 1072, 1086, 1095, 1085, 1072, 1103]"

definition kw_ochno_zaochnaya :: pystr where \<comment> \<open>ochno-zaochnaya (mixed)\<close>
  "kw_ochno_zaochnaya = [1086, 1095, 1085, 1086, 45, 1079, 1072, 1086, 1095, 1085, 1072, 1103]"

definition kw_vechernyaya :: pystr where \<comment> \<open>vechernyaya (evening)\<close>
  "kw_vechernyaya = [1074, 1077, 1095, 1077, 1088, 1085, 1103, 1103]"

section \<open>First variant (boba.py): data model\<close>

text \<open>
  The mapped classes of boba.py.  A column that the constructor call fills from
  \<open>safe_text\<close> holds a string; \<open>safe_bool\<close> columns hold an optional boolean; a column or
  key that is \<open>None\<close> until the store assigns it is an option.  Field names carry a
  prefix because the classes share column names.
\<close>

record organization_type =
  ot_id :: nat
  ot_name :: pystr
  ot_code :: pystr

record education_level =
  el_id :: nat
  el_name :: pystr
  el_code :: pystr

record education_form =
  ef_id :: nat
  ef_name :: pystr
  ef_code :: pystr

record organization =
  org_id :: "nat option"
  org_type_id :: nat
  org_parent_id :: "nat option"
  org_EduOrgShortName :: pystr
  org_EduOrgFullName :: pystr
  org_Phone :: pystr
  org_Fax :: pystr
  org_Email :: pystr
  org_WebSite :: pystr
  org_PostAddress :: pystr
  org_INN :: pystr
  org_KPP :: pystr
  org_OGRN :: pystr
  org_HeadPost :: pystr
  org_HeadName :: pystr
  org_FormName :: pystr
  org_KindName :: pystr
  org_TypeName :: pystr
  org_RegionName :: pystr
  org_FederalDistrictName :: pystr
  org_FederalDistrictShortName :: pystr
  org_IsBranch :: "bool option"
  org_HeadEduOrgId :: pystr
  org_type :: "organization_type option"

record educational_program =
  prog_id :: "nat option"
  prog_organization_id :: "nat option"
  prog_level_id :: "nat option"
  prog_form_id :: "nat option"
  prog_TypeName :: pystr
  prog_EduLevelName :: pystr
  prog_ProgrammName :: pystr
  prog_ProgrammCode :: "pystr option"
  prog_UGSName :: pystr
  prog_UGSCode :: pystr
  prog_EduNormativePeriod :: pystr
  prog_Qualification :: pystr
  prog_IsAccredited :: "bool option"
  prog_IsCanceled :: "bool option"
  prog_IsSuspended :: "bool option"
  prog_okso_code :: pystr

text \<open>The reference tables, each in the order of its rows in the store.\<close>

record refdata =
  organization_types :: "organization_type list"
  education_levels :: "education_level list"
  education_forms :: "education_form list"

section \<open>First variant: classifier and entity builder\<close>

text \<open>
  \<open>{ot.code: ot for ot in session.query(OrganizationType).all()}\<close>: a later row replaces an
  earlier one with the same code.
\<close>

definition org_types_cache :: "organization_type list \<Rightarrow> (pystr \<rightharpoonup> organization_type)" where
  "org_types_cache rows = map_of (rev (map (\<lambda>ot. (ot_code ot, ot)) rows))"

text \<open>
  The loop over \<open>programs\<close> in \<open>process_organization\<close>: the first program whose lowered
  level name contains a marker sets the code to \<open>'higher'\<close> and leaves the loop; without
  such a program the code stays \<open>None\<close>.
\<close>

fun programs_loop :: "elem list \<Rightarrow> pystr option" where
  "programs_loop [] = None"
| "programs_loop (prog_elem # rest) =
     (let edu_level = py_lower (safe_text (find_child prog_elem (asc ''EduLevelName'')) [])
      in if list_ex (\<lambda>x. py_in x edu_level) higher_level_markers
         then Some (asc ''higher'')
         else programs_loop rest)"

text \<open>
  The value of \<open>org_type_code\<close> in \<open>process_organization\<close> when the cache is consulted,
  from the lowered type name and the program elements.
\<close>

definition org_type_code :: "pystr \<Rightarrow> elem list \<Rightarrow> pystr" where
  "org_type_code type_name programs =
     (let code =
        (if list_ex (\<lambda>x. py_in x type_name) school_markers then Some (asc ''secondary'')
         else if list_ex (\<lambda>x. py_in x type_name) higher_markers then Some (asc ''higher'')
         else if programs \<noteq> [] then programs_loop programs
         else None)
      in case code of
           Some c \<Rightarrow> c
         | None \<Rightarrow>
             (if py_in kw_kolledzh type_name \<or> py_in kw_tekhnikum type_name
              then asc ''secondary_pro'' else asc ''secondary''))"

definition process_organization ::
  "elem \<Rightarrow> (pystr \<rightharpoonup> organization_type) \<Rightarrow> elem list \<Rightarrow> organization option" where
  "process_organization cert_elem cache programs =
     (case find_child cert_elem (asc ''ActualEducationOrganization'') of
        None \<Rightarrow> None
      | Some org_elem \<Rightarrow>
          (let type_name = py_lower (safe_text (find_child org_elem (asc ''TypeName'')) []);
               is_branch = safe_bool (find_child org_elem (asc ''IsBranch''))
           in case cache (org_type_code type_name programs) of
                None \<Rightarrow> None
              | Some org_type_obj \<Rightarrow>
                  Some \<lparr> org_id = None,
                         org_type_id = ot_id org_type_obj,
                         org_parent_id = None,
                         org_EduOrgShortName = safe_text (find_child org_elem (asc ''ShortName'')) [],
                         org_EduOrgFullName = safe_text (find_child org_elem (asc ''FullName'')) [],
                         org_Phone = safe_text (find_child org_elem (asc ''Phone'')) [],
                         org_Fax = safe_text (find_child org_elem (asc ''Fax'')) [],
                         org_Email = safe_text (find_child org_elem (asc ''Email'')) [],
                         org_WebSite = safe_text (find_child org_elem (asc ''WebSite'')) [],
                         org_PostAddress = safe_text (find_child org_elem (asc ''PostAddress'')) [],
                         org_INN = safe_text (find_child org_elem (asc ''INN'')) [],
                         org_KPP = safe_text (find_child org_elem (asc ''KPP'')) [],
                         org_OGRN = safe_text (find_child org_elem (asc ''OGRN'')) [],
                         org_HeadPost = safe_text (find_child org_elem (asc ''HeadPost'')) [],
                         org_HeadName = safe_text (find_child org_elem (asc ''HeadName'')) [],
                         org_FormName = safe_text (find_child org_elem (asc ''FormName'')) [],
                         org_KindName = safe_text (find_child org_elem (asc ''KindName'')) [],
                         org_TypeName = type_name,
                         org_RegionName = safe_text (find_child org_elem (asc ''RegionName'')) [],
                         org_FederalDistrictName =
                           safe_text (find_child org_elem (asc ''FederalDistrictName'')) [],
                         org_FederalDistrictShortName =
                           safe_text (find_child org_elem (asc ''FederalDistrictShortName'')) [],
                         org_IsBranch = is_branch,
                         org_HeadEduOrgId = safe_text (find_child org_elem (asc ''HeadEduOrgId'')) [],
                         org_type = Some org_type_obj \<rparr>))"

text \<open>
  The two \<open>if\<close>/\<open>elif\<close> chains of \<open>process_program\<close>, on the lowered level and form names.
\<close>

definition level_code :: "pystr \<Rightarrow> pystr option" where
  "level_code level_name =
     (if py_in kw_bakalavr level_name then Some (asc ''bachelor'')
      else if py_in kw_magistr level_name then Some (asc ''master'')
      else if py_in kw_spetsialist level_name \<or> py_in kw_aspirant level_name
        then Some (asc ''specialist'')
      else None)"

definition form_code :: "pystr \<Rightarrow> pystr option" where
  "form_code form_name =
     (if py_in kw_ochnaya form_name then Some (asc ''full_time'')
      else if py_in kw_zaochnaya form_name then Some (asc ''part_time'')
      else if py_in kw_ochno_zaochnaya form_name \<or> py_in kw_vechernyaya form_name
        then Some (asc ''mixed'')
      else Some (asc ''full_time''))"

text \<open>
  \<open>session.query(EducationLevel).filter_by(code=c).first()\<close> and the same for
  \<open>EducationForm\<close>, reduced to the identifier that \<open>process_program\<close> keeps.
\<close>

definition level_id_of :: "refdata \<Rightarrow> pystr option \<Rightarrow> nat option" where
  "level_id_of ref code =
     (case code of
        None \<Rightarrow> None
      | Some c \<Rightarrow> map_option el_id (List.find (\<lambda>l. el_code l = c) (education_levels ref)))"

definition form_id_of :: "refdata \<Rightarrow> pystr option \<Rightarrow> nat option" where
  "form_id_of ref code =
     (case code of
        None \<Rightarrow> None
      | Some c \<Rightarrow> map_option ef_id (List.find (\<lambda>f. ef_code f = c) (education_forms ref)))"

definition process_program :: "refdata \<Rightarrow> elem \<Rightarrow> educational_program" where
  "process_program ref prog_elem =
     (let level_name = py_lower (safe_text (find_child prog_elem (asc ''EduLevelName'')) []);
          form_name = py_lower (safe_text (find_child prog_elem (asc ''EducationForm'')) [])
      in \<lparr> prog_id = None,
           prog_organization_id = None,
           prog_level_id = level_id_of ref (level_code level_name),
           prog_form_id = form_id_of ref (form_code form_name),
           prog_TypeName = safe_text (find_child prog_elem (asc ''TypeName'')) [],
           prog_EduLevelName = safe_text (find_child prog_elem (asc ''EduLevelName'')) [],
           prog_ProgrammName = safe_text (find_child prog_elem (asc ''ProgrammName'')) [],
           prog_ProgrammCode = None,
           prog_UGSName = safe_text (find_child prog_elem (asc ''UGSName'')) [],
           prog_UGSCode = safe_text (find_child prog_elem (asc ''UGSCode'')) [],
           prog_EduNormativePeriod = safe_text (find_child prog_elem (asc ''EduNormativePeriod'')) [],
           prog_Qualification = safe_text (find_child prog_elem (asc ''Qualification'')) [],
           prog_IsAccredited = safe_bool (find_child prog_elem (asc ''IsAccredited'')),
           prog_IsCanceled = safe_bool (find_child prog_elem (asc ''IsCanceled'')),
           prog_IsSuspended = safe_bool (find_child prog_elem (asc ''IsSuspended'')),
           prog_okso_code = safe_text (find_child prog_elem (asc ''ProgrammCode'')) [] \<rparr>)"

section \<open>Dates\<close>

text \<open>
  \<open>datetime.strptime\<close> on the directives that the five patterns of \<open>safe_date\<close> use.
  The library turns a pattern into a regular expression, takes the first match that the
  backtracking matcher finds at the start of the string, rejects the string when the match
  does not reach its end, and then builds the \<open>datetime\<close>, which rejects values out of
  range.  Every rejection is a \<open>ValueError\<close>.

  A matcher is modelled by the list of its matches in the order in which the regular
  expression engine tries them, each with the input that is left.  A decimal digit is an
  ASCII digit here.
\<close>

datatype date = Date (year: nat) (month: nat) (day: nat)

type_synonym 'a matcher = "pystr \<Rightarrow> ('a \<times> pystr) list"

definition is_digit :: "nat \<Rightarrow> bool" where
  "is_digit c \<longleftrightarrow> 48 \<le> c \<and> c \<le> 57"

text \<open>
  Sequence: every match of the first part is continued by the second part, in order.
\<close>

fun m_bind :: "('a \<times> pystr) list \<Rightarrow> ('a \<Rightarrow> 'b matcher) \<Rightarrow> ('b \<times> pystr) list" where
  "m_bind [] f = []"
| "m_bind ((a, r) # rest) f = f a r @ m_bind rest f"

definition m_then :: "'a matcher \<Rightarrow> ('a \<Rightarrow> 'b matcher) \<Rightarrow> 'b matcher" where
  "m_then p f s = m_bind (p s) f"

definition m_return :: "'a \<Rightarrow> 'a matcher" where
  "m_return a s = [(a, s)]"

definition m_alt :: "'a matcher \<Rightarrow> 'a matcher \<Rightarrow> 'a matcher" where
  "m_alt p q s = p s @ q s"

text \<open>One code point between \<open>lo\<close> and \<open>hi\<close> (character codes).\<close>

definition m_range :: "nat \<Rightarrow> nat \<Rightarrow> nat matcher" where
  "m_range lo hi s =
     (case s of [] \<Rightarrow> [] | c # r \<Rightarrow> if lo \<le> c \<and> c \<le> hi then [(c, r)] else [])"

text \<open>A digit between \<open>lo\<close> and \<open>hi\<close> (digit values), giving its value.\<close>

definition m_digit :: "nat \<Rightarrow> nat \<Rightarrow> nat matcher" where
  "m_digit lo hi = m_then (m_range (48 + lo) (48 + hi)) (\<lambda>c. m_return (c - 48))"

text \<open>Two digits, each in its range, giving the number they write.\<close>

definition m_two :: "nat \<Rightarrow> nat \<Rightarrow> nat \<Rightarrow> nat \<Rightarrow> nat matcher" where
  "m_two lo1 hi1 lo2 hi2 =
     m_then (m_digit lo1 hi1) (\<lambda>a. m_then (m_digit lo2 hi2) (\<lambda>b. m_return (10 * a + b)))"

text \<open>An optional part, tried first with the part and then without (greedy \<open>?\<close>).\<close>

definition m_opt :: "'a matcher \<Rightarrow> 'a option matcher" where
  "m_opt p = m_alt (m_then p (\<lambda>a. m_return (Some a))) (m_return None)"

text \<open>\<open>\s+\<close>: one or more white-space code points, the longest run first.\<close>

fun m_spaces :: "unit matcher" where
  "m_spaces [] = []"
| "m_spaces (c # r) = (if is_space c then m_spaces r @ [((), r)] else [])"

text \<open>
  The directives.  \<open>%Y\<close> is \<open>\d\d\d\d\<close>, \<open>%m\<close> is \<open>1[0-2]|0[1-9]|[1-9]\<close>, \<open>%d\<close> is
  \<open>3[0-1]|[1-2]\d|0[1-9]|[1-9]| [1-9]\<close>, \<open>%H\<close> is \<open>2[0-3]|[0-1]\d|\d\<close>, \<open>%M\<close> is
  \<open>[0-5]\d|\d\<close> and \<open>%S\<close> is \<open>6[0-1]|[0-5]\d|\d\<close>.
\<close>

definition m_Y :: "nat matcher" where
  "m_Y = m_then (m_two 0 9 0 9) (\<lambda>a. m_then (m_two 0 9 0 9) (\<lambda>b. m_return (100 * a + b)))"

definition m_m :: "nat matcher" where
  "m_m = m_alt (m_two 1 1 0 2) (m_alt (m_two 0 0 1 9) (m_digit 1 9))"

definition m_d :: "nat matcher" where
  "m_d = m_alt (m_two 3 3 0 1) (m_alt (m_two 1 2 0 9) (m_alt (m_two 0 0 1 9)
           (m_alt (m_digit 1 9) (m_then (m_range 32 32) (\<lambda>_. m_digit 1 9)))))"

definition m_H :: "nat matcher" where
  "m_H = m_alt (m_two 2 2 0 3) (m_alt (m_two 0 1 0 9) (m_digit 0 9))"

definition m_M :: "nat matcher" where
  "m_M = m_alt (m_two 0 5 0 9) (m_digit 0 9)"

definition m_S :: "nat matcher" where
  "m_S = m_alt (m_two 6 6 0 1) (m_alt (m_two 0 5 0 9) (m_digit 0 9))"

text \<open>\<open>\d{1,6}\<close>, the longest run first; the digits themselves are not kept.\<close>

fun m_digits_upto :: "nat \<Rightarrow> unit matcher" where
  "m_digits_upto 0 s = []"
| "m_digits_upto (Suc n) s =
     m_then (m_digit 0 9) (\<lambda>_. m_alt (m_digits_upto n) (m_return ())) s"

text \<open>
  \<open>%z\<close> is \<open>[+-]\d\d:?[0-5]\d(:?[0-5]\d(\.\d{1,6})?)?|Z\<close>.  The value of the match is
  whether the library accepts the offset afterwards: with a seconds part the two colons
  must both be there or both be missing, and the offset must be less than 24 hours.
\<close>

definition m_colon :: "bool matcher" where
  "m_colon = m_then (m_opt (m_range 58 58)) (\<lambda>c. m_return (c \<noteq> None))"

definition m_z_seconds :: "bool matcher" where
  "m_z_seconds =
     m_then m_colon (\<lambda>c2. m_then (m_two 0 5 0 9) (\<lambda>_.
     m_then (m_opt (m_then (m_range 46 46) (\<lambda>_. m_digits_upto 6))) (\<lambda>_. m_return c2)))"

definition m_z :: "bool matcher" where
  "m_z =
     m_alt
       (m_then (m_alt (m_range 43 43) (m_range 45 45)) (\<lambda>_.
        m_then (m_two 0 9 0 9) (\<lambda>hours.
        m_then m_colon (\<lambda>c1.
        m_then (m_two 0 5 0 9) (\<lambda>_.
        m_then (m_opt m_z_seconds) (\<lambda>sec.
        m_return ((case sec of None \<Rightarrow> True | Some c2 \<Rightarrow> c1 = c2) \<and> hours < 24)))))))
       (m_then (m_range 90 90) (\<lambda>_. m_return True))"

text \<open>
  A pattern is a list of directives and literal characters; white space in a pattern
  stands for \<open>\s+\<close>.  The fields found so far are collected in a record, which starts
  from the defaults of the library.
\<close>

datatype directive = DY | Dm | Dd | DH | DM | DS | Dz | DLit nat | DSpace

record tm =
  tm_year :: nat
  tm_month :: nat
  tm_day :: nat
  tm_hour :: nat
  tm_minute :: nat
  tm_second :: nat
  tm_tz_ok :: bool

definition tm_default :: tm where
  "tm_default = \<lparr> tm_year = 1900, tm_month = 1, tm_day = 1, tm_hour = 0, tm_minute = 0,
                   tm_second = 0, tm_tz_ok = True \<rparr>"

fun m_directive :: "directive \<Rightarrow> tm \<Rightarrow> tm matcher" where
  "m_directive DY t = m_then m_Y (\<lambda>v. m_return (t\<lparr>tm_year := v\<rparr>))"
| "m_directive Dm t = m_then m_m (\<lambda>v. m_return (t\<lparr>tm_month := v\<rparr>))"
| "m_directive Dd t = m_then m_d (\<lambda>v. m_return (t\<lparr>tm_day := v\<rparr>))"
| "m_directive DH t = m_then m_H (\<lambda>v. m_return (t\<lparr>tm_hour := v\<rparr>))"
| "m_directive DM t = m_then m_M (\<lambda>v. m_return (t\<lparr>tm_minute := v\<rparr>))"
| "m_directive DS t = m_then m_S (\<lambda>v. m_return (t\<lparr>tm_second := v\<rparr>))"
| "m_directive Dz t = m_then m_z (\<lambda>v. m_return (t\<lparr>tm_tz_ok := v\<rparr>))"
| "m_directive (DLit c) t = m_then (m_range c c) (\<lambda>_. m_return t)"
| "m_directive DSpace t = m_then m_spaces (\<lambda>_. m_return t)"

fun m_format :: "directive list \<Rightarrow> tm \<Rightarrow> tm matcher" where
  "m_format [] t = m_return t"
| "m_format (d # ds) t = m_then (m_directive d t) (m_format ds)"

definition is_leap :: "nat \<Rightarrow> bool" where
  "is_leap y \<longleftrightarrow> y mod 4 = 0 \<and> (y mod 100 \<noteq> 0 \<or> y mod 400 = 0)"

definition days_in_month :: "nat \<Rightarrow> nat \<Rightarrow> nat" where
  "days_in_month y m =
     (if m = 2 then (if is_leap y then 29 else 28)
      else if m = 4 \<or> m = 6 \<or> m = 9 \<or> m = 11 then 30 else 31)"

text \<open>What the \<open>datetime\<close> constructor accepts.\<close>

definition tm_valid :: "tm \<Rightarrow> bool" where
  "tm_valid t \<longleftrightarrow>
     1 \<le> tm_year t \<and> tm_year t \<le> 9999 \<and> 1 \<le> tm_month t \<and> tm_month t \<le> 12 \<and>
     1 \<le> tm_day t \<and> tm_day t \<le> days_in_month (tm_year t) (tm_month t) \<and>
     tm_hour t \<le> 23 \<and> tm_minute t \<le> 59 \<and> tm_second t \<le> 59 \<and> tm_tz_ok t"

text \<open>
  \<open>datetime.strptime(text, fmt).date()\<close>; \<open>None\<close> stands for the \<open>ValueError\<close> that
  \<open>safe_date\<close> catches.
\<close>

definition strptime_date :: "pystr \<Rightarrow> directive list \<Rightarrow> date option" where
  "strptime_date s fmt =
     (case m_format fmt tm_default s of
        [] \<Rightarrow> None
      | (t, rest) # _ \<Rightarrow>
          if rest \<noteq> [] then None
          else if tm_valid t then Some (Date (tm_year t) (tm_month t) (tm_day t))
          else None)"

text \<open>
  The default of the parameter \<open>fmts\<close>: \<open>%Y-%m-%d\<close>, \<open>%d.%m.%Y\<close>, \<open>%Y/%m/%d\<close>,
  \<open>%Y-%m-%d %H:%M:%S\<close> and \<open>%Y-%m-%d %H:%M:%S%z\<close>.
\<close>

definition fmts :: "directive list list" where
  "fmts =
     [[DY, DLit 45, Dm, DLit 45, Dd],
      [Dd, DLit 46, Dm, DLit 46, DY],
      [DY, DLit 47, Dm, DLit 47, Dd],
      [DY, DLit 45, Dm, DLit 45, Dd, DSpace, DH, DLit 58, DM, DLit 58, DS],
      [DY, DLit 45, Dm, DLit 45, Dd, DSpace, DH, DLit 58, DM, DLit 58, DS, Dz]]"

text \<open>The loop over the patterns: the first pattern that parses gives the date.\<close>

fun try_formats :: "directive list list \<Rightarrow> pystr \<Rightarrow> date option" where
  "try_formats [] s = None"
| "try_formats (fmt # rest) s =
     (case strptime_date s fmt of Some d \<Rightarrow> Some d | None \<Rightarrow> try_formats rest s)"

text \<open>
  \<open>safe_date\<close>, the same in both variants.  \<open>text.split('+')[0]\<close> is the part of the text
  before its first plus sign (code point 43).
\<close>

definition safe_date :: "elem option \<Rightarrow> date option" where
  "safe_date element =
     (case element of
        None \<Rightarrow> None
      | Some e \<Rightarrow>
          (case text_of e of
             None \<Rightarrow> None
           | Some t \<Rightarrow>
               (let txt = py_strip t;
                    txt = (if 43 \<in> set txt then py_strip (takeWhile (\<lambda>c. c \<noteq> 43) txt) else txt)
                in try_formats fmts txt)))"

section \<open>First variant: the session and the streaming driver\<close>

text \<open>
  The SQLAlchemy session as \<open>parse_xml_to_db\<close> uses it.  \<open>committed\<close> holds the rows that a
  commit has made durable, \<open>written\<close> the rows that a flush has written in the open
  transaction, \<open>session_new\<close> the objects added and not yet flushed (\<open>session.new\<close>).
  Queries see the committed rows followed by the written ones, which is the order of
  their identifiers.

  Every request to the store (flush, query, commit) may raise.  Which requests do is
  given from outside by \<open>fault\<close>: the request made when the counter \<open>clock\<close> of the
  session is \<open>k\<close> raises when \<open>fault k\<close> holds.  A rollback is taken to succeed.
\<close>

datatype error =
  StoreError | UnmappedInstanceError | AttributeError | ParseError | OSError | TypeError

record store =
  organizations :: "organization list"
  programs :: "educational_program list"

datatype entity = OrgEntity organization | ProgEntity educational_program

record session =
  ref :: refdata
  committed :: store
  written :: store
  session_new :: "entity list"
  clock :: nat

definition empty_store :: store where
  "empty_store = \<lparr> organizations = [], programs = [] \<rparr>"

definition visible_orgs :: "session \<Rightarrow> organization list" where
  "visible_orgs s = organizations (committed s) @ organizations (written s)"

text \<open>
  The key that the store gives to a new row: one more than the largest key of the table
  (an integer primary key without a sequence of its own).
\<close>

definition next_id :: "nat option list \<Rightarrow> nat" where
  "next_id ids = Suc (fold (\<lambda>i m. case i of None \<Rightarrow> m | Some k \<Rightarrow> max k m) ids 0)"

fun write_entity :: "store \<Rightarrow> entity \<Rightarrow> store \<Rightarrow> store" where
  "write_entity c (OrgEntity org) w =
     w\<lparr>organizations := organizations w @
          [org\<lparr>org_id := Some (next_id (map org_id (organizations c @ organizations w)))\<rparr>]\<rparr>"
| "write_entity c (ProgEntity prog) w =
     w\<lparr>programs := programs w @
          [prog\<lparr>prog_id := Some (next_id (map prog_id (programs c @ programs w)))\<rparr>]\<rparr>"

definition tick :: "session \<Rightarrow> session" where
  "tick s = s\<lparr>clock := Suc (clock s)\<rparr>"

text \<open>The effect of a flush: the pending objects are written in the order of their addition.\<close>

definition flush_rows :: "session \<Rightarrow> session" where
  "flush_rows s =
     s\<lparr>written := fold (write_entity (committed s)) (session_new s) (written s),
       session_new := []\<rparr>"

definition session_add :: "entity \<Rightarrow> session \<Rightarrow> session" where
  "session_add e s = s\<lparr>session_new := session_new s @ [e]\<rparr>"

definition session_flush :: "(nat \<Rightarrow> bool) \<Rightarrow> session \<Rightarrow> (error \<times> session) + session" where
  "session_flush fault s =
     (if fault (clock s) then Inl (StoreError, tick s) else Inr (tick (flush_rows s)))"

text \<open>A query flushes the pending objects first (autoflush) and then reads.\<close>

definition session_query :: "(nat \<Rightarrow> bool) \<Rightarrow> session \<Rightarrow> (error \<times> session) + session" where
  "session_query fault s =
     (if fault (clock s) then Inl (StoreError, tick s) else Inr (tick (flush_rows s)))"

definition session_commit :: "(nat \<Rightarrow> bool) \<Rightarrow> session \<Rightarrow> (error \<times> session) + session" where
  "session_commit fault s =
     (if fault (clock s) then Inl (StoreError, tick s)
      else
        (let s1 = flush_rows s
         in Inr (tick (s1\<lparr>committed :=
                            \<lparr> organizations = organizations (committed s1) @ organizations (written s1),
                              programs = programs (committed s1) @ programs (written s1) \<rparr>,
                          written := empty_store\<rparr>))))"

definition session_rollback :: "session \<Rightarrow> session" where
  "session_rollback s = s\<lparr>written := empty_store, session_new := []\<rparr>"

text \<open>
  \<open>org.id\<close> after \<open>session.add(org); session.flush()\<close>: the organization is the object
  added last, so its row is the last organization written.
\<close>

definition flushed_org_id :: "session \<Rightarrow> nat option" where
  "flushed_org_id s = (case rev (organizations (written s)) of [] \<Rightarrow> None | org # _ \<Rightarrow> org_id org)"

text \<open>
  The parent lookup
  \<open>query(Organization).filter((Organization.id == head) | (Organization.INN == head)).first()\<close>.
  \<open>head\<close> is the text of \<open>HeadEduOrgId\<close>; how the store compares an integer key with a
  text is the parameter \<open>id_eq\<close>.  The query has no ordering clause: \<open>first()\<close> takes
  the first matching row in the order of the store, which is the order of the keys.
\<close>

definition is_parent_of :: "(nat \<Rightarrow> pystr \<Rightarrow> bool) \<Rightarrow> pystr \<Rightarrow> organization \<Rightarrow> bool" where
  "is_parent_of id_eq head p \<longleftrightarrow>
     (case org_id p of None \<Rightarrow> False | Some i \<Rightarrow> id_eq i head) \<or> org_INN p = head"

definition find_parent ::
  "(nat \<Rightarrow> pystr \<Rightarrow> bool) \<Rightarrow> pystr \<Rightarrow> session \<Rightarrow> organization option" where
  "find_parent id_eq head s = List.find (is_parent_of id_eq head) (visible_orgs s)"

text \<open>\<open>org.parent_id = parent.id\<close> on the organization that the flush has written.\<close>

definition set_parent :: "nat option \<Rightarrow> nat option \<Rightarrow> session \<Rightarrow> session" where
  "set_parent oid pid s =
     s\<lparr>written := (written s)\<lparr>organizations :=
          map (\<lambda>org. if org_id org = oid then org\<lparr>org_parent_id := pid\<rparr> else org)
              (organizations (written s))\<rparr>\<rparr>"

text \<open>The block under \<open>if org.IsBranch\<close>.\<close>

definition link_branch ::
  "(nat \<Rightarrow> bool) \<Rightarrow> (nat \<Rightarrow> pystr \<Rightarrow> bool) \<Rightarrow> organization \<Rightarrow> session \<Rightarrow>
   (error \<times> session) + session" where
  "link_branch fault id_eq org s =
     (if org_IsBranch org = Some True then
        (case session_query fault s of
           Inl err \<Rightarrow> Inl err
         | Inr s1 \<Rightarrow>
             (case find_parent id_eq (org_HeadEduOrgId org) s1 of
                None \<Rightarrow> Inr s1
              | Some parent \<Rightarrow> Inr (set_parent (flushed_org_id s1) (org_id parent) s1)))
      else Inr s)"

text \<open>
  One call of \<open>process_program(prog_elem, session)\<close> with its queries: the level query is
  made only when a level code was found, the form query always.
\<close>

definition query_program ::
  "(nat \<Rightarrow> bool) \<Rightarrow> elem \<Rightarrow> session \<Rightarrow> (error \<times> session) + (educational_program \<times> session)" where
  "query_program fault prog_elem s =
     (let level_name = py_lower (safe_text (find_child prog_elem (asc ''EduLevelName'')) []);
          after_level = (if level_code level_name = None then Inr s else session_query fault s)
      in case after_level of
           Inl err \<Rightarrow> Inl err
         | Inr s1 \<Rightarrow>
             (case session_query fault s1 of
                Inl err \<Rightarrow> Inl err
              | Inr s2 \<Rightarrow> Inr (process_program (ref s2) prog_elem, s2)))"

text \<open>The loop that builds and adds the programs of one certificate.\<close>

fun add_programs ::
  "(nat \<Rightarrow> bool) \<Rightarrow> nat option \<Rightarrow> elem list \<Rightarrow> session \<Rightarrow> (error \<times> session) + session" where
  "add_programs fault oid [] s = Inr s"
| "add_programs fault oid (prog_elem # rest) s =
     (case query_program fault prog_elem s of
        Inl err \<Rightarrow> Inl err
      | Inr (program, s1) \<Rightarrow>
          add_programs fault oid rest
            (session_add (ProgEntity (program\<lparr>prog_organization_id := oid\<rparr>)) s1))"

text \<open>
  \<open>[p for s in elem.findall('.//Supplement') for p in s.findall('.//EducationalProgram')]\<close>,
  the list that the driver builds twice.
\<close>

definition program_elems :: "elem \<Rightarrow> elem list" where
  "program_elems e =
     concat (map (\<lambda>supp_elem. findall_desc supp_elem (asc ''EducationalProgram''))
                 (findall_desc e (asc ''Supplement'')))"

text \<open>The output filter of the driver: \<open>org.org_type.code != 'higher' and not org.IsBranch\<close>.\<close>

definition filtered_out :: "organization \<Rightarrow> bool" where
  "filtered_out org \<longleftrightarrow>
     (case org_type org of None \<Rightarrow> True | Some t \<Rightarrow> ot_code t \<noteq> asc ''higher'')
     \<and> org_IsBranch org \<noteq> Some True"

text \<open>\<open>if len(session.new) % 100 == 0: session.commit()\<close>.\<close>

definition periodic_commit :: "(nat \<Rightarrow> bool) \<Rightarrow> session \<Rightarrow> (error \<times> session) + session" where
  "periodic_commit fault s =
     (if length (session_new s) mod 100 = 0 then session_commit fault s else Inr s)"

text \<open>
  The body of the inner \<open>try\<close> for one certificate element.  \<open>Inl\<close> is an exception, with
  the session as it was when the exception was raised; the three \<open>continue\<close> statements
  end the body with the session unchanged.
\<close>

definition certificate_body ::
  "(nat \<Rightarrow> bool) \<Rightarrow> (nat \<Rightarrow> pystr \<Rightarrow> bool) \<Rightarrow> (pystr \<rightharpoonup> organization_type) \<Rightarrow> elem \<Rightarrow>
   session \<Rightarrow> (error \<times> session) + session" where
  "certificate_body fault id_eq cache e s =
     (case process_organization e cache (program_elems e) of
        None \<Rightarrow> Inr s
      | Some org \<Rightarrow>
          if org_type org = None then Inr s
          else if filtered_out org then Inr s
          else
            (case session_flush fault (session_add (OrgEntity org) s) of
               Inl err \<Rightarrow> Inl err
             | Inr s1 \<Rightarrow>
                 (case link_branch fault id_eq org s1 of
                    Inl err \<Rightarrow> Inl err
                  | Inr s2 \<Rightarrow>
                      (case add_programs fault (flushed_org_id s2) (program_elems e) s2 of
                         Inl err \<Rightarrow> Inl err
                       | Inr s3 \<Rightarrow> periodic_commit fault s3))))"

text \<open>The inner \<open>try\<close>/\<open>except\<close>: an exception is logged and the session rolled back.\<close>

definition handle_certificate ::
  "(nat \<Rightarrow> bool) \<Rightarrow> (nat \<Rightarrow> pystr \<Rightarrow> bool) \<Rightarrow> (pystr \<rightharpoonup> organization_type) \<Rightarrow> elem \<Rightarrow>
   session \<Rightarrow> session" where
  "handle_certificate fault id_eq cache e s =
     (case certificate_body fault id_eq cache e s of
        Inl (err, s1) \<Rightarrow> session_rollback s1
      | Inr s1 \<Rightarrow> s1)"

text \<open>
  The \<open>for\<close> loop over the end events of \<open>ET.iterparse\<close>: an element is a record when its
  tag ends with \<open>Certificate\<close>.
\<close>

fun parse_loop ::
  "(nat \<Rightarrow> bool) \<Rightarrow> (nat \<Rightarrow> pystr \<Rightarrow> bool) \<Rightarrow> (pystr \<rightharpoonup> organization_type) \<Rightarrow> elem list \<Rightarrow>
   session \<Rightarrow> session" where
  "parse_loop fault id_eq cache [] s = s"
| "parse_loop fault id_eq cache (e # events) s =
     parse_loop fault id_eq cache events
       (if suffix (asc ''Certificate'') (tag e) then handle_certificate fault id_eq cache e s
        else s)"

text \<open>
  A document as the parser delivers it: the elements of its end events, and whether the
  stream then breaks off with a parse error.
\<close>

record document =
  doc_events :: "elem list"
  doc_malformed :: bool

text \<open>
  The statistics after the final commit: three queries, the first of which reads
  \<open>.first().id\<close> of the type with code \<open>'higher'\<close> and raises when there is no such row.
\<close>

definition statistics :: "(nat \<Rightarrow> bool) \<Rightarrow> session \<Rightarrow> (error \<times> session) + session" where
  "statistics fault s =
     (case session_query fault s of
        Inl err \<Rightarrow> Inl err
      | Inr s1 \<Rightarrow>
          if List.find (\<lambda>t. ot_code t = asc ''higher'') (organization_types (ref s1)) = None
          then Inl (AttributeError, s1)
          else
            (case session_query fault s1 of
               Inl err \<Rightarrow> Inl err
             | Inr s2 \<Rightarrow> session_query fault s2))"

text \<open>
  \<open>parse_xml_to_db\<close>: the result is the returned boolean and the session afterwards.  The
  outer \<open>except\<close> rolls back and returns \<open>False\<close>.
\<close>

definition parse_xml_to_db ::
  "(nat \<Rightarrow> bool) \<Rightarrow> (nat \<Rightarrow> pystr \<Rightarrow> bool) \<Rightarrow> document \<Rightarrow> session \<Rightarrow> bool \<times> session" where
  "parse_xml_to_db fault id_eq doc s =
     (case session_query fault s of
        Inl (err, s0) \<Rightarrow> (False, session_rollback s0)
      | Inr s0 \<Rightarrow>
          (let cache = org_types_cache (organization_types (ref s0));
               s1 = parse_loop fault id_eq cache (doc_events doc) s0
           in if doc_malformed doc then (False, session_rollback s1)
              else
                (case session_commit fault s1 of
                   Inl (err, s2) \<Rightarrow> (False, session_rollback s2)
                 | Inr s2 \<Rightarrow>
                     (case statistics fault s2 of
                        Inl (err, s3) \<Rightarrow> (False, session_rollback s3)
                      | Inr s3 \<Rightarrow> (True, s3)))))"

section \<open>Second variant (proektMAI.py): data model and entity builder\<close>

text \<open>
  The mapped classes of proektMAI.py.  A text column holds what \<open>safe_text\<close> of this
  variant returns, a string or \<open>None\<close>.  A relationship attribute given to a constructor
  holds the object it refers to.  The keys that the store assigns on insertion, and the
  foreign keys it derives from the relationships, are not part of what the builder
  makes and are left out.
\<close>

record organization_mai =
  morg_EduOrgShortName :: "pystr option"
  morg_EduOrgFullName :: "pystr option"
  morg_Phone :: "pystr option"
  morg_Fax :: "pystr option"
  morg_Email :: "pystr option"
  morg_WebSite :: "pystr option"
  morg_PostAddress :: "pystr option"
  morg_INN :: "pystr option"
  morg_KPP :: "pystr option"
  morg_OGRN :: "pystr option"
  morg_HeadPost :: "pystr option"
  morg_HeadName :: "pystr option"
  morg_FormName :: "pystr option"
  morg_KindName :: "pystr option"
  morg_TypeName :: "pystr option"
  morg_RegionName :: "pystr option"
  morg_FederalDistrictName :: "pystr option"
  morg_FederalDistrictShortName :: "pystr option"
  morg_IsBranch :: "bool option"
  morg_HeadEduOrgId :: "pystr option"

record certificate =
  cert_organization :: organization_mai
  cert_IsFederal :: "bool option"
  cert_StatusName :: "pystr option"
  cert_TypeName :: "pystr option"
  cert_RegionName :: "pystr option"
  cert_RegionCode :: "pystr option"
  cert_FederalDistrictName :: "pystr option"
  cert_FederalDistrictShortName :: "pystr option"
  cert_RegNumber :: "pystr option"
  cert_SerialNumber :: "pystr option"
  cert_FormNumber :: "pystr option"
  cert_IssueDate :: "date option"
  cert_EndDate :: "date option"
  cert_ControlOrgan :: "pystr option"
  cert_EduOrgINN :: "pystr option"
  cert_EduOrgKPP :: "pystr option"
  cert_EduOrgOGRN :: "pystr option"

record supplement =
  supp_certificate :: certificate
  supp_organization :: organization_mai
  supp_StatusName :: "pystr option"
  supp_StatusCode :: "pystr option"
  supp_Number :: "pystr option"
  supp_SerialNumber :: "pystr option"
  supp_FormNumber :: "pystr option"
  supp_IssueDate :: "date option"
  supp_IsForBranch :: "bool option"
  supp_Note :: "pystr option"
  supp_EduOrgFullName :: "pystr option"
  supp_EduOrgShortName :: "pystr option"
  supp_EduOrgAddress :: "pystr option"
  supp_EduOrgKPP :: "pystr option"

record educational_program_mai =
  mprog_supplement :: supplement
  mprog_TypeName :: "pystr option"
  mprog_EduLevelName :: "pystr option"
  mprog_ProgrammName :: "pystr option"
  mprog_ProgrammCode :: "pystr option"
  mprog_UGSName :: "pystr option"
  mprog_UGSCode :: "pystr option"
  mprog_EduNormativePeriod :: "pystr option"
  mprog_Qualification :: "pystr option"
  mprog_IsAccredited :: "bool option"
  mprog_IsCanceled :: "bool option"
  mprog_IsSuspended :: "bool option"

record decision =
  dec_certificate :: certificate
  dec_DecisionTypeName :: "pystr option"
  dec_OrderDocumentNumber :: "pystr option"
  dec_OrderDocumentKind :: "pystr option"
  dec_DecisionDate :: "date option"

record individual_entrepreneur =
  ip_certificate :: certificate
  ip_LastName :: "pystr option"
  ip_FirstName :: "pystr option"
  ip_MiddleName :: "pystr option"
  ip_Address :: "pystr option"
  ip_EGRIP :: "pystr option"
  ip_INN :: "pystr option"

text \<open>
  \<open>process_organization\<close> of the second variant; \<open>None\<close> when the certificate has no child
  \<open>ActualEducationOrganization\<close>.
\<close>

definition process_organization_mai :: "elem \<Rightarrow> organization_mai option" where
  "process_organization_mai cert_elem =
     (case find_child cert_elem (asc ''ActualEducationOrganization'') of
        None \<Rightarrow> None
      | Some org_elem \<Rightarrow>
          Some \<lparr> morg_EduOrgShortName = safe_text_mai (find_child org_elem (asc ''ShortName'')) None,
                 morg_EduOrgFullName = safe_text_mai (find_child org_elem (asc ''FullName'')) None,
                 morg_Phone = safe_text_mai (find_child org_elem (asc ''Phone'')) None,
                 morg_Fax = safe_text_mai (find_child org_elem (asc ''Fax'')) None,
                 morg_Email = safe_text_mai (find_child org_elem (asc ''Email'')) None,
                 morg_WebSite = safe_text_mai (find_child org_elem (asc ''Website'')) None,
                 morg_PostAddress = safe_text_mai (find_child org_elem (asc ''PostAddress'')) None,
                 morg_INN = safe_text_mai (find_child org_elem (asc ''INN'')) None,
                 morg_KPP = safe_text_mai (find_child org_elem (asc ''KPP'')) None,
                 morg_OGRN = safe_text_mai (find_child org_elem (asc ''OGRN'')) None,
                 morg_HeadPost = safe_text_mai (find_child org_elem (asc ''HeadPost'')) None,
                 morg_HeadName = safe_text_mai (find_child org_elem (asc ''HeadName'')) None,
                 morg_FormName = safe_text_mai (find_child org_elem (asc ''FormName'')) None,
                 morg_KindName = safe_text_mai (find_child org_elem (asc ''KindName'')) None,
                 morg_TypeName = safe_text_mai (find_child org_elem (asc ''TypeName'')) None,
                 morg_RegionName = safe_text_mai (find_child org_elem (asc ''RegionName'')) None,
                 morg_FederalDistrictName = safe_text_mai (find_child org_elem (asc ''FederalDistrictName'')) None,
                 morg_FederalDistrictShortName = safe_text_mai (find_child org_elem (asc ''FederalDistrictShortName'')) None,
                 morg_IsBranch = safe_bool (find_child org_elem (asc ''IsBranch'')),
                 morg_HeadEduOrgId = safe_text_mai (find_child org_elem (asc ''HeadEduOrgId'')) None \<rparr>)"

definition process_certificate :: "elem \<Rightarrow> organization_mai \<Rightarrow> certificate" where
  "process_certificate cert_elem organization =
     \<lparr> cert_organization = organization,
       cert_IsFederal = safe_bool (find_child cert_elem (asc ''IsFederal'')),
       cert_StatusName = safe_text_mai (find_child cert_elem (asc ''StatusName'')) None,
       cert_TypeName = safe_text_mai (find_child cert_elem (asc ''TypeName'')) None,
       cert_RegionName = safe_text_mai (find_child cert_elem (asc ''RegionName'')) None,
       cert_RegionCode = safe_text_mai (find_child cert_elem (asc ''RegionCode'')) None,
       cert_FederalDistrictName = safe_text_mai (find_child cert_elem (asc ''FederalDistrictName'')) None,
       cert_FederalDistrictShortName = safe_text_mai (find_child cert_elem (asc ''FederalDistrictShortName'')) None,
       cert_RegNumber = safe_text_mai (find_child cert_elem (asc ''RegNumber'')) None,
       cert_SerialNumber = safe_text_mai (find_child cert_elem (asc ''SerialNumber'')) None,
       cert_FormNumber = safe_text_mai (find_child cert_elem (asc ''FormNumber'')) None,
       cert_IssueDate = safe_date (find_child cert_elem (asc ''IssueDate'')),
       cert_EndDate = safe_date (find_child cert_elem (asc ''EndDate'')),
       cert_ControlOrgan = safe_text_mai (find_child cert_elem (asc ''ControlOrgan'')) None,
       cert_EduOrgINN = safe_text_mai (find_child cert_elem (asc ''EduOrgINN'')) None,
       cert_EduOrgKPP = safe_text_mai (find_child cert_elem (asc ''EduOrgKPP'')) None,
       cert_EduOrgOGRN = safe_text_mai (find_child cert_elem (asc ''EduOrgOGRN'')) None \<rparr>"

text \<open>
  \<open>process_supplement\<close>.  The serial is read from the child spelled \<open>SerialNubmer\<close>, as
  in the source.
\<close>

definition process_supplement :: "elem \<Rightarrow> certificate \<Rightarrow> supplement" where
  "process_supplement supp_elem cert =
     \<lparr> supp_certificate = cert,
       supp_organization = cert_organization cert,
       supp_StatusName = safe_text_mai (find_child supp_elem (asc ''StatusName'')) None,
       supp_StatusCode = safe_text_mai (find_child supp_elem (asc ''StatusCode'')) None,
       supp_Number = safe_text_mai (find_child supp_elem (asc ''Number'')) None,
       supp_SerialNumber = safe_text_mai (find_child supp_elem (asc ''SerialNubmer'')) None,
       supp_FormNumber = safe_text_mai (find_child supp_elem (asc ''FormNumber'')) None,
       supp_IssueDate = safe_date (find_child supp_elem (asc ''IssueDate'')),
       supp_IsForBranch = safe_bool (find_child supp_elem (asc ''IsForBranch'')),
       supp_Note = safe_text_mai (find_child supp_elem (asc ''Note'')) None,
       supp_EduOrgFullName = safe_text_mai (find_child supp_elem (asc ''EduOrgFullName'')) None,
       supp_EduOrgShortName = safe_text_mai (find_child supp_elem (asc ''EduOrgShortName'')) None,
       supp_EduOrgAddress = safe_text_mai (find_child supp_elem (asc ''EduOrgAddress'')) None,
       supp_EduOrgKPP = safe_text_mai (find_child supp_elem (asc ''EduOrgKPP'')) None \<rparr>"

definition process_program_mai :: "elem \<Rightarrow> supplement \<Rightarrow> educational_program_mai" where
  "process_program_mai prog_elem supplement =
     \<lparr> mprog_supplement = supplement,
       mprog_TypeName = safe_text_mai (find_child prog_elem (asc ''TypeName'')) None,
       mprog_EduLevelName = safe_text_mai (find_child prog_elem (asc ''EduLevelName'')) None,
       mprog_ProgrammName = safe_text_mai (find_child prog_elem (asc ''ProgrammName'')) None,
       mprog_ProgrammCode = safe_text_mai (find_child prog_elem (asc ''ProgrammCode'')) None,
       mprog_UGSName = safe_text_mai (find_child prog_elem (asc ''UGSName'')) None,
       mprog_UGSCode = safe_text_mai (find_child prog_elem (asc ''UGSCode'')) None,
       mprog_EduNormativePeriod = safe_text_mai (find_child prog_elem (asc ''EduNormativePeriod'')) None,
       mprog_Qualification = safe_text_mai (find_child prog_elem (asc ''Qualification'')) None,
       mprog_IsAccredited = safe_bool (find_child prog_elem (asc ''IsAccredited'')),
       mprog_IsCanceled = safe_bool (find_child prog_elem (asc ''IsCanceled'')),
       mprog_IsSuspended = safe_bool (find_child prog_elem (asc ''IsSuspended'')) \<rparr>"

definition process_decision :: "elem \<Rightarrow> certificate \<Rightarrow> decision" where
  "process_decision decision_elem certificate =
     \<lparr> dec_certificate = certificate,
       dec_DecisionTypeName = safe_text_mai (find_child decision_elem (asc ''DecisionTypeName'')) None,
       dec_OrderDocumentNumber = safe_text_mai (find_child decision_elem (asc ''OrderDocumentNumber'')) None,
       dec_OrderDocumentKind = safe_text_mai (find_child decision_elem (asc ''OrderDocumentKind'')) None,
       dec_DecisionDate = safe_date (find_child decision_elem (asc ''DecisionDate'')) \<rparr>"

section \<open>Second variant: the session and the streaming driver\<close>

text \<open>
  The second driver never flushes or queries inside the loop, so its session is the
  committed rows, the pending objects and the request counter.  A row is the object as
  the builder made it.
\<close>

datatype entity_mai =
    MOrg organization_mai
  | MCert certificate
  | MEntrepreneur individual_entrepreneur
  | MSupp supplement
  | MProg educational_program_mai
  | MDecision decision

record session_mai =
  committed_mai :: "entity_mai list"
  new_mai :: "entity_mai list"
  clock_mai :: nat

definition add_mai :: "entity_mai \<Rightarrow> session_mai \<Rightarrow> session_mai" where
  "add_mai e s = s\<lparr>new_mai := new_mai s @ [e]\<rparr>"

definition commit_mai :: "(nat \<Rightarrow> bool) \<Rightarrow> session_mai \<Rightarrow> (error \<times> session_mai) + session_mai" where
  "commit_mai fault s =
     (if fault (clock_mai s) then Inl (StoreError, s\<lparr>clock_mai := Suc (clock_mai s)\<rparr>)
      else Inr (s\<lparr>committed_mai := committed_mai s @ new_mai s, new_mai := [],
                 clock_mai := Suc (clock_mai s)\<rparr>))"

definition rollback_mai :: "session_mai \<Rightarrow> session_mai" where
  "rollback_mai s = s\<lparr>new_mai := []\<rparr>"

text \<open>
  The dictionary \<open>ip_data\<close> and the test
  \<open>any(value for value in ip_data.values() if value is not None)\<close>: some field is a
  string that is not empty.
\<close>

definition entrepreneur_of :: "elem \<Rightarrow> certificate \<Rightarrow> individual_entrepreneur" where
  "entrepreneur_of e cert =
     \<lparr> ip_certificate = cert,
       ip_LastName = safe_text_mai (find_child e (asc ''IndividualEntrepreneurLastName'')) None,
       ip_FirstName = safe_text_mai (find_child e (asc ''IndividualEntrepreneurFirstName'')) None,
       ip_MiddleName = safe_text_mai (find_child e (asc ''IndividualEntrepreneurMiddleName'')) None,
       ip_Address = safe_text_mai (find_child e (asc ''IndividualEntrepreneurAddress'')) None,
       ip_EGRIP = safe_text_mai (find_child e (asc ''IndividualEntrepreneurEGRIP'')) None,
       ip_INN = safe_text_mai (find_child e (asc ''IndividualEntrepreneurINN'')) None \<rparr>"

definition truthy :: "pystr option \<Rightarrow> bool" where
  "truthy v \<longleftrightarrow> (case v of None \<Rightarrow> False | Some t \<Rightarrow> t \<noteq> [])"

definition has_entrepreneur :: "individual_entrepreneur \<Rightarrow> bool" where
  "has_entrepreneur ip \<longleftrightarrow>
     truthy (ip_LastName ip) \<or> truthy (ip_FirstName ip) \<or> truthy (ip_MiddleName ip) \<or>
     truthy (ip_Address ip) \<or> truthy (ip_EGRIP ip) \<or> truthy (ip_INN ip)"

text \<open>The loop over the supplements with the inner loop over their programs.\<close>

definition supplement_entities :: "elem \<Rightarrow> certificate \<Rightarrow> entity_mai list" where
  "supplement_entities e cert =
     concat (map (\<lambda>supp_elem.
                    (let supp = process_supplement supp_elem cert
                     in MSupp supp #
                        map (\<lambda>prog_elem. MProg (process_program_mai prog_elem supp))
                            (findall_desc supp_elem (asc ''EducationalProgram''))))
                 (findall_desc e (asc ''Supplement'')))"

text \<open>
  \<open>elem.findall('.//Decisions/Decision')\<close>: the \<open>Decision\<close> children of every descendant
  \<open>Decisions\<close>.
\<close>

definition decision_elems :: "elem \<Rightarrow> elem list" where
  "decision_elems e =
     concat (map (\<lambda>d. filter (\<lambda>c. tag c = asc ''Decision'') (children d))
                 (findall_desc e (asc ''Decisions'')))"

text \<open>
  The body of the inner \<open>try\<close>.  Without an organization element \<open>process_organization\<close>
  returns \<open>None\<close> and \<open>session.add(None)\<close> raises.
\<close>

definition certificate_body_mai ::
  "(nat \<Rightarrow> bool) \<Rightarrow> elem \<Rightarrow> session_mai \<Rightarrow> (error \<times> session_mai) + session_mai" where
  "certificate_body_mai fault e s =
     (case process_organization_mai e of
        None \<Rightarrow> Inl (UnmappedInstanceError, s)
      | Some org \<Rightarrow>
          (let s1 = add_mai (MOrg org) s;
               cert = process_certificate e org;
               s2 = add_mai (MCert cert) s1;
               ip = entrepreneur_of e cert;
               s3 = (if has_entrepreneur ip then add_mai (MEntrepreneur ip) s2 else s2);
               s4 = fold add_mai (supplement_entities e cert) s3;
               s5 = fold add_mai (map (\<lambda>d. MDecision (process_decision d cert)) (decision_elems e)) s4
           in if length (new_mai s5) mod 100 = 0 then commit_mai fault s5 else Inr s5))"

definition handle_certificate_mai :: "(nat \<Rightarrow> bool) \<Rightarrow> elem \<Rightarrow> session_mai \<Rightarrow> session_mai" where
  "handle_certificate_mai fault e s =
     (case certificate_body_mai fault e s of
        Inl (err, s1) \<Rightarrow> rollback_mai s1
      | Inr s1 \<Rightarrow> s1)"

fun parse_loop_mai :: "(nat \<Rightarrow> bool) \<Rightarrow> elem list \<Rightarrow> session_mai \<Rightarrow> session_mai" where
  "parse_loop_mai fault [] s = s"
| "parse_loop_mai fault (e # events) s =
     parse_loop_mai fault events
       (if suffix (asc ''Certificate'') (tag e) then handle_certificate_mai fault e s else s)"

definition parse_xml_to_db_mai ::
  "(nat \<Rightarrow> bool) \<Rightarrow> document \<Rightarrow> session_mai \<Rightarrow> bool \<times> session_mai" where
  "parse_xml_to_db_mai fault doc s =
     (let s1 = parse_loop_mai fault (doc_events doc) s
      in if doc_malformed doc then (False, rollback_mai s1)
         else
           (case commit_mai fault s1 of
              Inl (err, s2) \<Rightarrow> (False, rollback_mai s2)
            | Inr s2 \<Rightarrow> (True, s2)))"

section \<open>Change detector\<close>

text \<open>
  What \<open>json.load\<close> can return: any JSON value, an object being a dictionary with
  string keys.  A number is kept as its text.
\<close>

datatype json =
    JNull
  | JBool bool
  | JNumber pystr
  | JString pystr
  | JArray "json list"
  | JObject "pystr \<rightharpoonup> json"

text \<open>
  What can happen when \<open>save_state\<close> writes \<open>state.json\<close>: the write succeeds; or
  \<open>open\<close> raises and the file is untouched; or \<open>open\<close> has truncated the file and the
  write then raises, which leaves an empty or partial file.
\<close>

datatype write_outcome = WriteOk | OpenFails | WriteFails

text \<open>
  The files that the detector touches.  \<open>files\<close> gives the bytes of every file that can
  be read.  \<open>state_file\<close> is the JSON value that \<open>state.json\<close> holds, or \<open>None\<close> when that
  file is missing, cannot be read or is not valid JSON.  \<open>state_write\<close> tells how a write
  of \<open>state.json\<close> ends.  The MD5 digest is the parameter \<open>digest\<close>.
\<close>

record world =
  files :: "pystr \<rightharpoonup> nat list"
  state_file :: "json option"
  state_write :: write_outcome

definition get_file_hash :: "(nat list \<Rightarrow> pystr) \<Rightarrow> world \<Rightarrow> pystr \<Rightarrow> error + pystr" where
  "get_file_hash digest w file_path =
     (case files w file_path of None \<Rightarrow> Inl OSError | Some buf \<Rightarrow> Inr (digest buf))"

text \<open>
  \<open>load_state\<close>: the value that \<open>json.load\<close> returns, whatever it is, and the empty
  dictionary after any failure.
\<close>

definition load_state :: "world \<Rightarrow> json" where
  "load_state w = (case state_file w of None \<Rightarrow> JObject Map.empty | Some j \<Rightarrow> j)"

text \<open>
  \<open>save_state\<close>: a failure is logged and not raised.  A partial file is not valid JSON.
\<close>

definition save_state :: "json \<Rightarrow> world \<Rightarrow> world" where
  "save_state state w =
     (case state_write w of
        WriteOk \<Rightarrow> w\<lparr>state_file := Some state\<rparr>
      | OpenFails \<Rightarrow> w
      | WriteFails \<Rightarrow> w\<lparr>state_file := None\<rparr>)"

text \<open>
  \<open>check_for_updates\<close>.  The hash is computed before the state is looked at.  On a
  dictionary, \<open>file_path in state and state[file_path] == current_hash\<close> holds when the
  entry of the path is the string of the hash.  On every other value the membership
  test, the subscription or the item assignment raises \<open>TypeError\<close>.
\<close>

definition check_for_updates ::
  "(nat list \<Rightarrow> pystr) \<Rightarrow> pystr \<Rightarrow> world \<Rightarrow> error + (bool \<times> world)" where
  "check_for_updates digest file_path w =
     (let state = load_state w
      in case get_file_hash digest w file_path of
           Inl err \<Rightarrow> Inl err
         | Inr current_hash \<Rightarrow>
             (case state of
                JObject m \<Rightarrow>
                  if m file_path = Some (JString current_hash) then Inr (False, w)
                  else Inr (True, save_state (JObject (m(file_path \<mapsto> JString current_hash))) w)
              | _ \<Rightarrow> Inl TypeError))"

text \<open>
  \<open>main\<close> from the change check on, for the file that \<open>find_xml_file\<close> has found.
  Everything that \<open>main\<close> does with the store once the check has said yes (opening the
  session, seeding, \<open>parse_xml_to_db\<close>) is the parameter \<open>ingest\<close>; \<open>db\<close> is the state of the
  store.  An exception of the check leaves \<open>main\<close> before anything is done.
\<close>

definition main_from_check ::
  "(nat list \<Rightarrow> pystr) \<Rightarrow> (pystr \<Rightarrow> 'db \<Rightarrow> 'db) \<Rightarrow> pystr \<Rightarrow> world \<times> 'db \<Rightarrow> world \<times> 'db" where
  "main_from_check digest ingest xml_file wd =
     (case check_for_updates digest xml_file (fst wd) of
        Inl err \<Rightarrow> wd
      | Inr (changed, w1) \<Rightarrow>
          if \<not> changed then (w1, snd wd) else (w1, ingest xml_file (snd wd)))"

section \<open>The classification rules as the specification words them\<close>

text \<open>
  The four rules of the specification for the type of an organization, first match
  first, on the type name and the level names of the associated programs:
  a school marker gives \<open>secondary\<close>; else a higher-education marker gives \<open>higher\<close>; else a
  program whose level name has a higher-education-level marker gives \<open>higher\<close>; else
  \<open>secondary_pro\<close> with a college or technical-school marker and \<open>secondary\<close> without.
\<close>

definition spec_org_type :: "pystr \<Rightarrow> pystr list \<Rightarrow> pystr" where
  "spec_org_type type_name level_names =
     (if list_ex (\<lambda>m. sublist m type_name) school_markers then asc ''secondary''
      else if list_ex (\<lambda>m. sublist m type_name) higher_markers then asc ''higher''
      else if list_ex (\<lambda>n. list_ex (\<lambda>m. sublist m n) higher_level_markers) level_names
        then asc ''higher''
      else if sublist kw_kolledzh type_name \<or> sublist kw_tekhnikum type_name
        then asc ''secondary_pro''
      else asc ''secondary'')"

text \<open>The level name of a program element as the classifier reads it.\<close>

definition level_name_of :: "elem \<Rightarrow> pystr" where
  "level_name_of prog_elem = py_lower (safe_text (find_child prog_elem (asc ''EduLevelName'')) [])"


section \<open>Reference data\<close>

text \<open>
  The rows that \<open>initialize_database\<close> adds to the three reference tables, with the keys
  that an empty store gives them (names in Russian, as code points).
\<close>

definition seed_refdata :: refdata where
  "seed_refdata =
     \<lparr> organization_types =
         [\<lparr> ot_id = 1,
             ot_name = [1074, 1099, 1089, 1096, 1077, 1077, 32, 1086, 1073, 1088, 1072, 1079, 1086, 1074, 1072, 1085, 1080, 1077],
             ot_code = asc ''higher'' \<rparr>,
          \<lparr> ot_id = 2,
             ot_name = [1089, 1088, 1077, 1076, 1085, 1077, 1077, 32, 1087, 1088, 1086, 1092, 1077, 1089, 1089, 1080, 1086, 1085, 1072, 1083, 1100, 1085, 1086, 1077],
             ot_code = asc ''secondary_pro'' \<rparr>,
          \<lparr> ot_id = 3,
             ot_name = [1089, 1088, 1077, 1076, 1085, 1077, 1077, 32, 1086, 1073, 1097, 1077, 1077],
             ot_code = asc ''secondary'' \<rparr>],
       education_levels =
         [\<lparr> el_id = 1,
             el_name = [1041, 1072, 1082, 1072, 1083, 1072, 1074, 1088, 1080, 1072, 1090],
             el_code = asc ''bachelor'' \<rparr>,
          \<lparr> el_id = 2,
             el_name = [1052, 1072, 1075, 1080, 1089, 1090, 1088, 1072, 1090, 1091, 1088, 1072],
             el_code = asc ''master'' \<rparr>,
          \<lparr> el_id = 3,
             el_name = [1057, 1087, 1077, 1094, 1080, 1072, 1083, 1080, 1090, 1077, 1090],
             el_code = asc ''specialist'' \<rparr>,
          \<lparr> el_id = 4,
             el_name = [1040, 1089, 1087, 1080, 1088, 1072, 1085, 1090, 1091, 1088, 1072],
             el_code = asc ''postgraduate'' \<rparr>],
       education_forms =
         [\<lparr> ef_id = 1,
             ef_name = [1054, 1095, 1085, 1072, 1103],
             ef_code = asc ''full_time'' \<rparr>,
          \<lparr> ef_id = 2,
             ef_name = [1047, 1072, 1086, 1095, 1085, 1072, 1103],
             ef_code = asc ''part_time'' \<rparr>,
          \<lparr> ef_id = 3,
             ef_name = [1054, 1095, 1085, 1086, 45, 1079, 1072, 1086, 1095, 1085, 1072, 1103],
             ef_code = asc ''mixed'' \<rparr>,
          \<lparr> ef_id = 4,
             ef_name = [1044, 1080, 1089, 1090, 1072, 1085, 1094, 1080, 1086, 1085, 1085, 1072, 1103],
             ef_code = asc ''remote'' \<rparr>] \<rparr>"

section \<open>Notions for the properties of the drivers\<close>

text \<open>Every row of the first store is still there, in its place, in the second.\<close>

definition store_prefix :: "store \<Rightarrow> store \<Rightarrow> bool" where
  "store_prefix a b \<longleftrightarrow>
     prefix (organizations a) (organizations b) \<and> prefix (programs a) (programs b)"


text \<open>
  Every organization that the session holds, written or pending, passes the output
  filter.
\<close>

definition all_kept :: "session \<Rightarrow> bool" where
  "all_kept s \<longleftrightarrow>
     list_all (\<lambda>org. \<not> filtered_out org) (visible_orgs s) \<and>
     list_all (\<lambda>x. case x of OrgEntity org \<Rightarrow> \<not> filtered_out org | ProgEntity prog \<Rightarrow> True)
              (session_new s)"

text \<open>The session that a step leaves behind, whether it raised or not.\<close>

definition outcome :: "(error \<times> session) + session \<Rightarrow> session" where
  "outcome r = (case r of Inl (err, s) \<Rightarrow> s | Inr s \<Rightarrow> s)"


text \<open>A session on a freshly seeded store, and a store that never fails.\<close>

definition fresh_session :: session where
  "fresh_session =
     \<lparr> ref = seed_refdata, committed = empty_store, written = empty_store,
       session_new = [], clock = 0 \<rparr>"

definition no_fault :: "nat \<Rightarrow> bool" where
  "no_fault k \<longleftrightarrow> False"

definition fresh_session_mai :: session_mai where
  "fresh_session_mai = \<lparr> committed_mai = [], new_mai = [], clock_mai = 0 \<rparr>"

text \<open>
  An instance of the comparison of an integer key with a text, for worked examples: the
  text is the decimal numeral of the key.
\<close>

fun decimal :: "nat \<Rightarrow> pystr" where
  "decimal n = (if n < 10 then [48 + n] else decimal (n div 10) @ [48 + n mod 10])"

declare decimal.simps [simp del]

definition id_eq_decimal :: "nat \<Rightarrow> pystr \<Rightarrow> bool" where
  "id_eq_decimal i head \<longleftrightarrow> head = decimal i"

section \<open>Sample records\<close>

text \<open>
  A certificate of a university (type name vuz) without supplements; a certificate
  without an organization element; a certificate of a branch whose INN and head
  identifier are the same text; a certificate of a school (type name litsey).
\<close>

definition sample_university :: elem where
  "sample_university =
     Elem (asc ''Certificate'') None
       [Elem (asc ''ActualEducationOrganization'') None
          [Elem (asc ''TypeName'') (Some [1042, 1059, 1047]) [],
           Elem (asc ''INN'') (Some (asc ''7700000001'')) [],
           Elem (asc ''IsBranch'') (Some (asc ''0'')) []]]"

definition sample_no_organization :: elem where
  "sample_no_organization =
     Elem (asc ''Certificate'') None [Elem (asc ''RegNumber'') (Some (asc ''0001'')) []]"

definition sample_branch :: elem where
  "sample_branch =
     Elem (asc ''Certificate'') None
       [Elem (asc ''ActualEducationOrganization'') None
          [Elem (asc ''INN'') (Some (asc ''7700000001'')) [],
           Elem (asc ''IsBranch'') (Some (asc ''1'')) [],
           Elem (asc ''HeadEduOrgId'') (Some (asc ''7700000001'')) []]]"

definition sample_school :: elem where
  "sample_school =
     Elem (asc ''Certificate'') None
       [Elem (asc ''ActualEducationOrganization'') None
          [Elem (asc ''TypeName'') (Some [1083, 1080, 1094, 1077, 1081]) [],
           Elem (asc ''IsBranch'') (Some (asc ''0'')) []]]"


text \<open>
  Samples for the second variant: a certificate whose organization element is empty, the
  organization and the certificate built from it, a supplement that carries its serial
  in a child \<open>SerialNumber\<close>, and one that has a child spelled \<open>SerialNubmer\<close> as well.
\<close>

definition sample_certificate_elem :: elem where
  "sample_certificate_elem =
     Elem (asc ''Certificate'') None [Elem (asc ''ActualEducationOrganization'') None []]"

definition blank_organization_mai :: organization_mai where
  "blank_organization_mai =
     \<lparr> morg_EduOrgShortName = None,
       morg_EduOrgFullName = None,
       morg_Phone = None,
       morg_Fax = None,
       morg_Email = None,
       morg_WebSite = None,
       morg_PostAddress = None,
       morg_INN = None,
       morg_KPP = None,
       morg_OGRN = None,
       morg_HeadPost = None,
       morg_HeadName = None,
       morg_FormName = None,
       morg_KindName = None,
       morg_TypeName = None,
       morg_RegionName = None,
       morg_FederalDistrictName = None,
       morg_FederalDistrictShortName = None,
       morg_IsBranch = None,
       morg_HeadEduOrgId = None \<rparr>"

definition sample_certificate :: certificate where
  "sample_certificate = process_certificate sample_certificate_elem blank_organization_mai"

definition sample_supplement :: elem where
  "sample_supplement =
     Elem (asc ''Supplement'') None [Elem (asc ''SerialNumber'') (Some (asc ''90A01'')) []]"

definition sample_supplement_both :: elem where
  "sample_supplement_both =
     Elem (asc ''Supplement'') None
       [Elem (asc ''SerialNumber'') (Some (asc ''90A01'')) [],
        Elem (asc ''SerialNubmer'') (Some (asc ''77'')) []]"

section \<open>Facts about strings and elements\<close>

lemma sublist_trans: "sublist xs ys \<Longrightarrow> sublist ys zs \<Longrightarrow> sublist xs zs"
proof -
  assume "sublist xs ys" and "sublist ys zs"
  then obtain p s p' s' where "ys = p @ xs @ s" and "zs = p' @ ys @ s'"
    by (auto simp: sublist_def)
  then have "zs = (p' @ p) @ xs @ (s @ s')"
    by simp
  then show ?thesis
    unfolding sublist_def by blast
qed

lemma py_strip_digit: "py_strip (asc ''1'') = asc ''1''" "py_strip (asc ''0'') = asc ''0''"
  by (simp_all add: py_strip_def is_space_def asc_def)

lemma find_filter_same:
  "(\<And>x. P x \<Longrightarrow> Q x) \<Longrightarrow> List.find P (filter Q xs) = List.find P xs"
  by (induction xs) auto

section \<open>Boolean coercion\<close>

text \<open>
  C7, as the code has it.  \<open>safe_bool\<close> strips the text before it compares: a text whose
  stripped form is \<open>1\<close> gives true, one whose stripped form is \<open>0\<close> gives false, and
  every other text, a missing text and a missing element give unknown; false is never
  a default.  The literal texts \<open>1\<close> and \<open>0\<close> give true and false.  A program element
  without a child \<open>IsAccredited\<close> is built with an unknown \<open>IsAccredited\<close> in both variants.
\<close>

theorem safe_bool_stripped:
  "(safe_bool element = Some True \<longleftrightarrow>
      (\<exists>e t. element = Some e \<and> text_of e = Some t \<and> py_strip t = asc ''1'')) \<and>
   (safe_bool element = Some False \<longleftrightarrow>
      (\<exists>e t. element = Some e \<and> text_of e = Some t \<and> py_strip t = asc ''0'')) \<and>
   safe_bool (Some (Elem tg (Some (asc ''1'')) cs)) = Some True \<and>
   safe_bool (Some (Elem tg (Some (asc ''0'')) cs)) = Some False \<and>
   safe_bool (Some (Elem tg (Some []) cs)) = None \<and>
   safe_bool (Some (Elem tg None cs)) = None \<and>
   safe_bool None = None \<and>
   (find_child prog_elem (asc ''IsAccredited'') = None \<longrightarrow>
      prog_IsAccredited (process_program rd prog_elem) = None \<and>
      mprog_IsAccredited (process_program_mai prog_elem supp) = None)"
proof -
  have ne: "asc ''1'' \<noteq> asc ''0''"
    by (simp add: asc_def)
  have a: "safe_bool element = Some True \<longleftrightarrow>
      (\<exists>e t. element = Some e \<and> text_of e = Some t \<and> py_strip t = asc ''1'')"
    by (auto simp: safe_bool_def Let_def split: option.splits if_splits)
  have b: "safe_bool element = Some False \<longleftrightarrow>
      (\<exists>e t. element = Some e \<and> text_of e = Some t \<and> py_strip t = asc ''0'')"
    using ne by (auto simp: safe_bool_def Let_def split: option.splits if_splits)
  have c: "safe_bool (Some (Elem tg (Some (asc ''1'')) cs)) = Some True"
    by (simp add: safe_bool_def py_strip_digit)
  have d: "safe_bool (Some (Elem tg (Some (asc ''0'')) cs)) = Some False"
    using ne by (simp add: safe_bool_def py_strip_digit)
  have e: "safe_bool (Some (Elem tg (Some []) cs)) = None"
    by (simp add: safe_bool_def py_strip_def asc_def)
  have f: "safe_bool (Some (Elem tg None cs)) = None" "safe_bool None = None"
    by (simp_all add: safe_bool_def)
  have g: "find_child prog_elem (asc ''IsAccredited'') = None \<longrightarrow>
      prog_IsAccredited (process_program rd prog_elem) = None \<and>
      mprog_IsAccredited (process_program_mai prog_elem supp) = None"
    by (simp add: process_program_def process_program_mai_def Let_def safe_bool_def)
  from a b c d e f g show ?thesis
    by blast
qed

theorem safe_bool_stripped_witness:
  "find_child (Elem (asc ''EducationalProgram'') None []) (asc ''IsAccredited'') = None \<and>
   prog_IsAccredited (process_program seed_refdata (Elem (asc ''EducationalProgram'') None []))
     = None \<and>
   safe_bool (Some (Elem (asc ''IsAccredited'') (Some (asc ''1'')) [])) = Some True"
proof -
  have h: "find_child (Elem (asc ''EducationalProgram'') None []) (asc ''IsAccredited'') = None"
    by (simp add: find_child_def)
  show ?thesis
    using h safe_bool_stripped [of None "asc ''IsAccredited''" "[]"
        "Elem (asc ''EducationalProgram'') None []" seed_refdata]
    by blast
qed

text \<open>
  C7 as stated fails: the text of a blank followed by \<open>1\<close> is neither \<open>1\<close> nor \<open>0\<close>, and
  its coercion is true.
\<close>

theorem safe_bool_counterexample:
  "asc '' 1'' \<noteq> asc ''1'' \<and> asc '' 1'' \<noteq> asc ''0'' \<and>
   safe_bool (Some (Elem (asc ''IsAccredited'') (Some (asc '' 1'')) [])) = Some True"
  by (simp add: safe_bool_def py_strip_def is_space_def asc_def)

section \<open>Text coercion\<close>

text \<open>
  C9 at the failing input.  \<open>safe_text\<close> of the second variant gives back the text of the
  element with its surrounding blanks, where the first variant gives the trimmed text;
  and for an element without text it gives \<open>None\<close> whatever default the caller has
  supplied, where the first variant gives the default.
\<close>

theorem safe_text_mai_not_trimmed:
  "safe_text_mai (Some (Elem (asc ''FullName'') (Some (asc '' MAI '')) [])) None
     = Some (asc '' MAI '') \<and>
   py_strip (asc '' MAI '') = asc ''MAI'' \<and>
   asc '' MAI '' \<noteq> asc ''MAI'' \<and>
   safe_text (Some (Elem (asc ''FullName'') (Some (asc '' MAI '')) [])) [] = asc ''MAI'' \<and>
   safe_text_mai (Some (Elem (asc ''FullName'') None [])) (Some (asc ''n/a'')) = None \<and>
   safe_text (Some (Elem (asc ''FullName'') None [])) (asc ''n/a'') = asc ''n/a''"
  by (simp add: safe_text_mai_def safe_text_def py_strip_def is_space_def asc_def)

text \<open>
  What the first variant does: the trimmed text when the element and its text are there,
  the default otherwise.
\<close>

lemma safe_text_trimmed:
  "safe_text (Some (Elem tg (Some t) cs)) dflt = py_strip t"
  "safe_text (Some (Elem tg None cs)) dflt = dflt"
  "safe_text None dflt = dflt"
  by (simp_all add: safe_text_def)

section \<open>Program level and form\<close>

lemma ochnaya_in_zaochnaya: "sublist kw_ochnaya kw_zaochnaya"
  by (simp add: kw_ochnaya_def kw_zaochnaya_def sublist_code prefix_code)

lemma zaochnaya_in_ochno_zaochnaya: "sublist kw_zaochnaya kw_ochno_zaochnaya"
  by (simp add: kw_ochno_zaochnaya_def kw_zaochnaya_def sublist_code prefix_code)

text \<open>
  C6 at the failing input.  The part-time keyword (zaochnaya) ends with the full-time
  keyword (ochnaya), which the chain tests first: the form text zaochnaya is classified
  \<open>full_time\<close>, so is ochno-zaochnaya, and no form text at all is classified \<open>part_time\<close>.
\<close>

theorem form_code_never_part_time:
  "form_code kw_zaochnaya = Some (asc ''full_time'') \<and>
   form_code kw_ochno_zaochnaya = Some (asc ''full_time'') \<and>
   form_code form_name \<noteq> Some (asc ''part_time'')"
proof -
  have a: "form_code kw_zaochnaya = Some (asc ''full_time'')"
    by (simp add: form_code_def py_in_def ochnaya_in_zaochnaya)
  have "sublist kw_ochnaya kw_ochno_zaochnaya"
    using ochnaya_in_zaochnaya zaochnaya_in_ochno_zaochnaya by (rule sublist_trans)
  then have b: "form_code kw_ochno_zaochnaya = Some (asc ''full_time'')"
    by (simp add: form_code_def py_in_def)
  have c: "form_code form_name \<noteq> Some (asc ''part_time'')"
  proof (cases "sublist kw_zaochnaya form_name")
    case True
    with ochnaya_in_zaochnaya have "sublist kw_ochnaya form_name"
      by (rule sublist_trans)
    then show ?thesis
      by (simp add: form_code_def py_in_def asc_def)
  next
    case False
    then show ?thesis
      by (simp add: form_code_def py_in_def asc_def)
  qed
  from a b c show ?thesis
    by blast
qed

text \<open>The level chain, in its order: bachelor, then master, then specialist, else unknown.\<close>

lemma level_code_chain:
  "level_code level_name =
     (if sublist kw_bakalavr level_name then Some (asc ''bachelor'')
      else if sublist kw_magistr level_name then Some (asc ''master'')
      else if sublist kw_spetsialist level_name \<or> sublist kw_aspirant level_name
        then Some (asc ''specialist'')
      else None)"
  by (simp add: level_code_def py_in_def)

section \<open>The serial of a supplement\<close>

lemma sample_certificate_organization:
  "process_organization_mai sample_certificate_elem = Some blank_organization_mai"
  by (simp add: process_organization_mai_def sample_certificate_elem_def find_child_def
      blank_organization_mai_def safe_text_mai_def safe_bool_def)

lemma supplement_entities_serial:
  "list_all (\<lambda>supp_elem. find_child supp_elem (asc ''SerialNubmer'') = None)
     (findall_desc e (asc ''Supplement'')) \<Longrightarrow>
   list_all (\<lambda>x. case x of MSupp sp \<Rightarrow> supp_SerialNumber sp = None | _ \<Rightarrow> True)
     (supplement_entities e cert)"
proof -
  have one: "list_all (\<lambda>x. case x of MSupp sp \<Rightarrow> supp_SerialNumber sp = None | _ \<Rightarrow> True)
      (MSupp (process_supplement supp_elem cert) #
       map (\<lambda>prog_elem. MProg (process_program_mai prog_elem (process_supplement supp_elem cert)))
         (findall_desc supp_elem (asc ''EducationalProgram'')))"
    if "find_child supp_elem (asc ''SerialNubmer'') = None" for supp_elem
    using that by (simp add: process_supplement_def safe_text_mai_def list_all_iff)
  have "list_all (\<lambda>x. case x of MSupp sp \<Rightarrow> supp_SerialNumber sp = None | _ \<Rightarrow> True)
      (concat (map (\<lambda>supp_elem.
                    (let supp = process_supplement supp_elem cert
                     in MSupp supp #
                        map (\<lambda>prog_elem. MProg (process_program_mai prog_elem supp))
                            (findall_desc supp_elem (asc ''EducationalProgram'')))) elems))"
    if "list_all (\<lambda>supp_elem. find_child supp_elem (asc ''SerialNubmer'') = None) elems"
    for elems
    using that
  proof (induction elems)
    case Nil
    then show ?case
      by simp
  next
    case (Cons x xs)
    then have "find_child x (asc ''SerialNubmer'') = None"
      by simp
    from one [OF this] Cons show ?case
      by (simp add: Let_def)
  qed
  then show "list_all (\<lambda>supp_elem. find_child supp_elem (asc ''SerialNubmer'') = None)
     (findall_desc e (asc ''Supplement'')) \<Longrightarrow>
   list_all (\<lambda>x. case x of MSupp sp \<Rightarrow> supp_SerialNumber sp = None | _ \<Rightarrow> True)
     (supplement_entities e cert)"
    by (simp add: supplement_entities_def)
qed

text \<open>
  C10, as the code has it.  The \<open>SerialNumber\<close> of a supplement that is built is the text of
  the first child of the element that is spelled \<open>SerialNubmer\<close>, and unknown when there
  is no such child.  So a supplement element that carries its serial in a child
  \<open>SerialNumber\<close>, and has no child spelled \<open>SerialNubmer\<close>, is built with an unknown
  \<open>SerialNumber\<close>, and so is every supplement that the driver adds for a certificate whose
  supplement elements have no such child.  The children \<open>SerialNumber\<close> have no part in the
  field: it is the same when they are removed from the element.
\<close>

theorem supplement_serial_from_misspelt_child:
  "supp_SerialNumber (process_supplement supp_elem cert) =
     (case find_child supp_elem (asc ''SerialNubmer'') of None \<Rightarrow> None | Some c \<Rightarrow> text_of c) \<and>
   (find_child supp_elem (asc ''SerialNumber'') = Some c \<and> text_of c = Some serial \<and>
    find_child supp_elem (asc ''SerialNubmer'') = None
      \<longrightarrow> supp_SerialNumber (process_supplement supp_elem cert) = None) \<and>
   (list_all (\<lambda>supp_elem. find_child supp_elem (asc ''SerialNubmer'') = None)
      (findall_desc e (asc ''Supplement''))
      \<longrightarrow> list_all (\<lambda>x. case x of MSupp sp \<Rightarrow> supp_SerialNumber sp = None | _ \<Rightarrow> True)
            (supplement_entities e cert)) \<and>
   supp_SerialNumber
     (process_supplement (Elem tg x (filter (\<lambda>c. tag c \<noteq> asc ''SerialNumber'') cs)) cert)
     = supp_SerialNumber (process_supplement (Elem tg x cs) cert) \<and>
   supp_SerialNumber
     (process_supplement (Elem tg x (Elem (asc ''SerialNubmer'') (Some serial) [] # cs)) cert)
     = Some serial"
proof -
  have r: "supp_SerialNumber (process_supplement supp_elem cert) =
     (case find_child supp_elem (asc ''SerialNubmer'') of None \<Rightarrow> None | Some c \<Rightarrow> text_of c)"
    by (simp add: process_supplement_def safe_text_mai_def)
  have a: "find_child supp_elem (asc ''SerialNubmer'') = None
      \<Longrightarrow> supp_SerialNumber (process_supplement supp_elem cert) = None"
    by (simp add: r)
  have ne: "asc ''SerialNubmer'' \<noteq> asc ''SerialNumber''"
    by (simp add: asc_def)
  have "List.find (\<lambda>c. tag c = asc ''SerialNubmer'')
          (filter (\<lambda>c. tag c \<noteq> asc ''SerialNumber'') cs)
        = List.find (\<lambda>c. tag c = asc ''SerialNubmer'') cs"
    using ne by (intro find_filter_same) auto
  then have b: "supp_SerialNumber
     (process_supplement (Elem tg x (filter (\<lambda>c. tag c \<noteq> asc ''SerialNumber'') cs)) cert)
     = supp_SerialNumber (process_supplement (Elem tg x cs) cert)"
    by (simp add: process_supplement_def find_child_def)
  have c: "supp_SerialNumber
     (process_supplement (Elem tg x (Elem (asc ''SerialNubmer'') (Some serial) [] # cs)) cert)
     = Some serial"
    by (simp add: process_supplement_def find_child_def safe_text_mai_def)
  have d: "list_all (\<lambda>supp_elem. find_child supp_elem (asc ''SerialNubmer'') = None)
      (findall_desc e (asc ''Supplement''))
      \<Longrightarrow> list_all (\<lambda>x. case x of MSupp sp \<Rightarrow> supp_SerialNumber sp = None | _ \<Rightarrow> True)
            (supplement_entities e cert)"
    by (rule supplement_entities_serial)
  from r a b c d show ?thesis
    by blast
qed

theorem supplement_serial_from_misspelt_child_witness:
  "find_child sample_supplement (asc ''SerialNumber'')
     = Some (Elem (asc ''SerialNumber'') (Some (asc ''90A01'')) []) \<and>
   find_child sample_supplement (asc ''SerialNubmer'') = None \<and>
   supp_SerialNumber (process_supplement sample_supplement sample_certificate) = None"
proof -
  let ?c = "Elem (asc ''SerialNumber'') (Some (asc ''90A01'')) []"
  have h1: "find_child sample_supplement (asc ''SerialNumber'') = Some ?c"
    by (simp add: find_child_def sample_supplement_def)
  have h2: "find_child sample_supplement (asc ''SerialNubmer'') = None"
    by (simp add: find_child_def sample_supplement_def asc_def)
  have h3: "text_of ?c = Some (asc ''90A01'')"
    by simp
  show ?thesis
    using h1 h2 h3 supplement_serial_from_misspelt_child
      [where supp_elem = sample_supplement and c = ?c and serial = "asc ''90A01''"
         and cert = sample_certificate]
    by blast
qed

text \<open>
  C10 as stated fails for a supplement element that carries its serial in a child
  \<open>SerialNumber\<close> and has a child spelled \<open>SerialNubmer\<close> as well: the field is the text of
  the latter, not unknown.
\<close>

theorem supplement_serial_counterexample:
  "find_child sample_supplement_both (asc ''SerialNumber'')
     = Some (Elem (asc ''SerialNumber'') (Some (asc ''90A01'')) []) \<and>
   supp_SerialNumber (process_supplement sample_supplement_both sample_certificate)
     = Some (asc ''77'')"
  by (simp add: find_child_def sample_supplement_both_def process_supplement_def
      safe_text_mai_def asc_def)

section \<open>Date coercion\<close>

lemma not_space_plus: "\<not> is_space 43"
  by (simp add: is_space_def)

lemma takeWhile_upto_first:
  "takeWhile (\<lambda>x. x \<noteq> c) (xs @ c # ys) = takeWhile (\<lambda>x. x \<noteq> c) xs"
  by (induction xs) auto

lemma py_strip_around:
  "\<not> is_space c \<Longrightarrow>
   py_strip (xs @ c # ys) = dropWhile is_space xs @ c # rev (dropWhile is_space (rev ys))"
  by (simp add: py_strip_def dropWhile_append3)

lemma py_strip_dropWhile: "py_strip (dropWhile is_space s) = py_strip s"
  by (simp add: py_strip_def)

lemma set_py_strip: "\<not> is_space c \<Longrightarrow> c \<in> set (py_strip s) \<longleftrightarrow> c \<in> set s"
proof
  assume "c \<in> set (py_strip s)"
  then have "c \<in> set (dropWhile is_space (rev (dropWhile is_space s)))"
    by (simp add: py_strip_def)
  then have "c \<in> set (rev (dropWhile is_space s))"
    by (rule set_mp [OF set_dropWhileD [THEN subsetI], rotated]) 
  then show "c \<in> set s"
    using set_dropWhileD by fastforce
next
  assume ns: "\<not> is_space c" and "c \<in> set s"
  then obtain xs ys where "s = xs @ c # ys"
    by (auto dest: split_list)
  with ns show "c \<in> set (py_strip s)"
    by (simp add: py_strip_around)
qed

text \<open>
  The text that \<open>safe_date\<close> hands to the patterns: what is left of the first plus sign,
  stripped.
\<close>

lemma safe_date_text:
  "(if 43 \<in> set (py_strip t) then py_strip (takeWhile (\<lambda>c. c \<noteq> 43) (py_strip t))
    else py_strip t)
   = py_strip (takeWhile (\<lambda>c. c \<noteq> 43) (dropWhile is_space t))"
proof (cases "43 \<in> set t")
  case True
  then obtain xs ys where t: "t = xs @ 43 # ys" and "43 \<notin> set xs"
    by (auto dest: split_list_first)
  have "py_strip t = dropWhile is_space xs @ 43 # rev (dropWhile is_space (rev ys))"
    using not_space_plus by (simp add: t py_strip_around)
  moreover have "dropWhile is_space t = dropWhile is_space xs @ 43 # ys"
    using not_space_plus by (simp add: t dropWhile_append3)
  ultimately show ?thesis
    by (simp add: takeWhile_upto_first)
next
  case False
  then have a: "43 \<notin> set (py_strip t)"
    using not_space_plus by (simp add: set_py_strip)
  have "takeWhile (\<lambda>c. c \<noteq> 43) (dropWhile is_space t) = dropWhile is_space t"
    using False by (auto dest: set_dropWhileD)
  then have "py_strip (takeWhile (\<lambda>c. c \<noteq> 43) (dropWhile is_space t)) = py_strip t"
    by (simp only: py_strip_dropWhile)
  with a show ?thesis
    by simp
qed

lemma safe_date_unfold:
  "safe_date (Some (Elem tg (Some t) cs))
   = try_formats fmts (py_strip (takeWhile (\<lambda>c. c \<noteq> 43) (dropWhile is_space t)))"
  unfolding safe_date_def Let_def by (simp only: option.case elem.sel safe_date_text)

text \<open>
  An offset that starts with a plus sign is removed before parsing: with or without it
  the coercion gives the same date, for every text.
\<close>

lemma safe_date_plus_offset:
  "safe_date (Some (Elem tg (Some (s @ 43 # offset)) cs)) = safe_date (Some (Elem tg (Some s) cs))"
proof -
  have "dropWhile is_space (s @ 43 # offset) = dropWhile is_space s @ 43 # offset"
    using not_space_plus by (simp add: dropWhile_append3)
  then have "takeWhile (\<lambda>c. c \<noteq> 43) (dropWhile is_space (s @ 43 # offset))
           = takeWhile (\<lambda>c. c \<noteq> 43) (dropWhile is_space s)"
    by (simp add: takeWhile_upto_first)
  then show ?thesis
    by (simp only: safe_date_unfold)
qed

text \<open>Evaluation of the matchers on a given text, one match at a time.\<close>

lemma m_bind_weak_cong: "xs = ys \<Longrightarrow> m_bind xs f = m_bind ys f"
  by simp

lemmas matcher_defs =
  m_then_def m_return_def m_alt_def m_range_def m_digit_def m_two_def m_opt_def
  m_Y_def m_m_def m_d_def m_H_def m_M_def m_S_def m_colon_def m_z_seconds_def m_z_def

lemmas date_defs =
  fmts_def strptime_date_def tm_default_def tm_valid_def days_in_month_def is_leap_def
  is_space_def py_strip_def asc_def

text \<open>
  C8 at the failing input.  \<open>2020-01-01\<close> is valid in the first pattern and is coerced to
  that date, also with the offset \<open>+03:00\<close> behind it; with the offset \<open>-05:00\<close> or \<open>Z\<close>
  behind it the coercion gives unknown, because only a plus sign starts the part that is
  cut off.
\<close>

theorem safe_date_minus_offset_kept:
  "safe_date (Some (Elem (asc ''IssueDate'') (Some (asc ''2020-01-01'')) [])) = Some (Date 2020 1 1) \<and>
   safe_date (Some (Elem (asc ''IssueDate'') (Some (asc ''2020-01-01+03:00'')) []))
     = Some (Date 2020 1 1) \<and>
   safe_date (Some (Elem (asc ''IssueDate'') (Some (asc ''2020-01-01-05:00'')) [])) = None \<and>
   safe_date (Some (Elem (asc ''IssueDate'') (Some (asc ''2020-01-01Z'')) [])) = None"
proof -
  have a: "safe_date (Some (Elem (asc ''IssueDate'') (Some (asc ''2020-01-01'')) []))
      = Some (Date 2020 1 1)"
    by (simp add: safe_date_def Let_def date_defs matcher_defs cong: m_bind_weak_cong)
  have b: "safe_date (Some (Elem (asc ''IssueDate'') (Some (asc ''2020-01-01+03:00'')) []))
      = Some (Date 2020 1 1)"
    by (simp add: safe_date_def Let_def date_defs matcher_defs cong: m_bind_weak_cong)
  have c: "safe_date (Some (Elem (asc ''IssueDate'') (Some (asc ''2020-01-01-05:00'')) [])) = None"
    by (simp add: safe_date_def Let_def date_defs matcher_defs cong: m_bind_weak_cong)
  have d: "safe_date (Some (Elem (asc ''IssueDate'') (Some (asc ''2020-01-01Z'')) [])) = None"
    by (simp add: safe_date_def Let_def date_defs matcher_defs cong: m_bind_weak_cong)
  from a b c d show ?thesis
    by blast
qed

section \<open>Organization type\<close>

lemma programs_loop_any:
  "programs_loop progs =
     (if list_ex (\<lambda>n. list_ex (\<lambda>m. sublist m n) higher_level_markers) (map level_name_of progs)
      then Some (asc ''higher'') else None)"
  by (induction progs) (simp_all add: Let_def py_in_def level_name_of_def)

lemma org_type_code_spec:
  "org_type_code type_name progs = spec_org_type type_name (map level_name_of progs)"
proof (cases progs)
  case Nil
  then show ?thesis
    by (simp add: org_type_code_def spec_org_type_def py_in_def)
next
  case (Cons p ps)
  then have "progs \<noteq> []"
    by simp
  then show ?thesis
    by (simp add: org_type_code_def spec_org_type_def py_in_def programs_loop_any)
qed

lemma sublist_dropWhile_head:
  assumes "sublist (a # x) s" and "\<not> P a"
  shows "sublist (a # x) (dropWhile P s)"
proof -
  from assms(1) obtain ps ss where s: "s = ps @ (a # x) @ ss"
    by (auto simp: sublist_def)
  have "dropWhile P s = dropWhile P ps @ (a # x) @ ss"
    using assms(2) by (simp add: s dropWhile_append3)
  then show ?thesis
    by (metis sublist_appendI)
qed

lemma sublist_py_strip:
  assumes "sublist x s" and "x \<noteq> []" and "\<not> is_space (hd x)" and "\<not> is_space (last x)"
  shows "sublist x (py_strip s)"
proof -
  from assms(2) obtain a x' where x: "x = a # x'"
    by (cases x) auto
  from assms(2) obtain b y' where rx: "rev x = b # y'"
    by (cases "rev x") auto
  then have b: "b = last x"
    using assms(2) by (metis hd_rev list.sel(1))
  have "sublist x (dropWhile is_space s)"
    using assms(1,3) unfolding x by (simp add: sublist_dropWhile_head)
  then have "sublist (rev x) (rev (dropWhile is_space s))"
    by simp
  then have "sublist (rev x) (dropWhile is_space (rev (dropWhile is_space s)))"
    using assms(4) unfolding rx b by (simp add: sublist_dropWhile_head)
  then have "sublist (rev (rev x)) (rev (dropWhile is_space (rev (dropWhile is_space s))))"
    by (simp only: sublist_rev)
  then show ?thesis
    by (simp add: py_strip_def)
qed

lemma sublist_map_mono: "sublist x s \<Longrightarrow> sublist (map f x) (map f s)"
proof -
  assume "sublist x s"
  then obtain ps ss where "s = ps @ x @ ss"
    by (auto simp: sublist_def)
  then have "map f s = map f ps @ map f x @ map f ss"
    by simp
  then show ?thesis
    unfolding sublist_def by blast
qed

lemma litsey_survives:
  assumes "sublist kw_litsey raw"
  shows "sublist kw_litsey (py_lower (py_strip raw))"
proof -
  have "sublist kw_litsey (py_strip raw)"
    using assms by (rule sublist_py_strip) (simp_all add: kw_litsey_def is_space_def)
  then have "sublist (map lower_cp kw_litsey) (py_lower (py_strip raw))"
    unfolding py_lower_def by (rule sublist_map_mono)
  moreover have "map lower_cp kw_litsey = kw_litsey"
    by (simp add: kw_litsey_def lower_cp_def)
  ultimately show ?thesis
    by simp
qed

lemma litsey_is_school_marker: "kw_litsey \<in> set school_markers"
  by (simp add: kw_litsey_def school_markers_def)

lemma litsey_secondary:
  "sublist kw_litsey type_name \<Longrightarrow> spec_org_type type_name level_names = asc ''secondary''"
  using litsey_is_school_marker by (auto simp: spec_org_type_def list_ex_iff)

text \<open>
  C1.  The type code that \<open>process_organization\<close> computes is the one that the four rules
  of the specification give, first match first, for every type name and every list of
  program elements; the organization that is built carries the lowered type name and the
  cached type of that code.  A type name that contains litsey gives \<open>secondary\<close>, whatever
  else it contains and whatever the progs are, also when litsey stands in the raw text
  of the \<open>TypeName\<close> element.
\<close>

theorem org_type_code_refines_spec:
  "org_type_code type_name progs = spec_org_type type_name (map level_name_of progs) \<and>
   (find_child cert_elem (asc ''ActualEducationOrganization'') = Some org_elem \<and>
    process_organization cert_elem cache progs = Some org \<longrightarrow>
      org_TypeName org = py_lower (safe_text (find_child org_elem (asc ''TypeName'')) []) \<and>
      org_type org = cache (spec_org_type (org_TypeName org) (map level_name_of progs))) \<and>
   (sublist kw_litsey type_name \<longrightarrow> org_type_code type_name progs = asc ''secondary'') \<and>
   (sublist kw_litsey raw \<longrightarrow>
      org_type_code (py_lower (safe_text (Some (Elem tg (Some raw) cs)) [])) progs
        = asc ''secondary'')"
proof -
  have a: "org_type_code type_name progs = spec_org_type type_name (map level_name_of progs)"
    by (rule org_type_code_spec)
  have b: "org_TypeName org = py_lower (safe_text (find_child org_elem (asc ''TypeName'')) []) \<and>
      org_type org = cache (spec_org_type (org_TypeName org) (map level_name_of progs))"
    if "find_child cert_elem (asc ''ActualEducationOrganization'') = Some org_elem"
      and "process_organization cert_elem cache progs = Some org"
    using that
    by (auto simp: process_organization_def Let_def org_type_code_spec split: option.splits)
  have c: "org_type_code type_name progs = asc ''secondary''" if "sublist kw_litsey type_name"
    using that by (simp add: org_type_code_spec litsey_secondary)
  have d: "org_type_code (py_lower (safe_text (Some (Elem tg (Some raw) cs)) [])) progs
        = asc ''secondary''" if "sublist kw_litsey raw"
    using litsey_survives [OF that]
    by (simp add: org_type_code_spec litsey_secondary safe_text_def)
  from a b c d show ?thesis
    by blast
qed
theorem org_type_code_refines_spec_witness:
  "sublist kw_litsey (kw_litsey @ 32 # [1091, 1085, 1080, 1074, 1077, 1088, 1089, 1080, 1090, 1077, 1090]) \<and>
   org_type_code
     (py_lower (safe_text (Some (Elem (asc ''TypeName'')
        (Some (kw_litsey @ 32 # [1091, 1085, 1080, 1074, 1077, 1088, 1089, 1080, 1090, 1077, 1090])) [])) []))
     [] = asc ''secondary'' \<and>
   (case process_organization
           (Elem (asc ''Certificate'') None
              [Elem (asc ''ActualEducationOrganization'') None
                 [Elem (asc ''TypeName'')
                    (Some (kw_litsey @ 32 # [1091, 1085, 1080, 1074, 1077, 1088, 1089, 1080, 1090, 1077, 1090]))
                    []]])
           (org_types_cache (organization_types seed_refdata)) [] of
      None \<Rightarrow> False
    | Some org \<Rightarrow> map_option ot_code (org_type org) = Some (asc ''secondary''))"
proof -
  let ?w = "kw_litsey @ 32 # [1091, 1085, 1080, 1074, 1077, 1088, 1089, 1080, 1090, 1077, 1090]"
  let ?t = "Elem (asc ''TypeName'') (Some ?w) []"
  let ?o = "Elem (asc ''ActualEducationOrganization'') None [?t]"
  let ?c = "Elem (asc ''Certificate'') None [?o]"
  let ?cache = "org_types_cache (organization_types seed_refdata)"
  have h: "sublist kw_litsey ?w"
    by simp
  have code: "org_type_code (py_lower (safe_text (Some ?t) [])) [] = asc ''secondary''"
    using h org_type_code_refines_spec [where raw = ?w and progs = "[]" and tg = "asc ''TypeName''" and cs = "[]"]
    by blast
  have fo: "find_child ?c (asc ''ActualEducationOrganization'') = Some ?o"
    by (simp add: find_child_def)
  have ft: "find_child ?o (asc ''TypeName'') = Some ?t"
    by (simp add: find_child_def)
  have cache: "map_option ot_code (?cache (asc ''secondary'')) = Some (asc ''secondary'')"
    by (simp add: org_types_cache_def seed_refdata_def asc_def)
  then obtain ot where ot: "?cache (asc ''secondary'') = Some ot"
    by auto
  have "process_organization ?c ?cache [] \<noteq> None"
    by (simp add: process_organization_def fo ft code ot Let_def)
  then obtain org where org: "process_organization ?c ?cache [] = Some org"
    by auto
  have "org_type org = ?cache (spec_org_type (org_TypeName org) (map level_name_of []))"
    and "org_TypeName org = py_lower (safe_text (find_child ?o (asc ''TypeName'')) [])"
    using fo org org_type_code_refines_spec
      [where progs = "[]" and cert_elem = ?c and org_elem = ?o and cache = ?cache and org = org]
    by blast+
  moreover have "spec_org_type (py_lower (safe_text (Some ?t) [])) (map level_name_of [])
      = asc ''secondary''"
    using code org_type_code_refines_spec
      [where type_name = "py_lower (safe_text (Some ?t) [])" and progs = "[]"]
    by simp
  ultimately have "map_option ot_code (org_type org) = Some (asc ''secondary'')"
    using cache by (simp add: ft)
  with h code org show ?thesis
    by simp
qed

section \<open>Change detector\<close>

lemma save_state_fields:
  "files (save_state st w) = files w"
  "state_write (save_state st w) = state_write w"
  "state_write w = WriteOk \<Longrightarrow> load_state (save_state st w) = st"
  "state_write w = OpenFails \<Longrightarrow> save_state st w = w"
  "state_write w = WriteFails \<Longrightarrow> load_state (save_state st w) = JObject Map.empty"
  by (simp_all add: save_state_def load_state_def split: write_outcome.splits)

lemma check_for_updates_same:
  "files w file_path = Some buf \<Longrightarrow> load_state w = JObject m \<Longrightarrow>
   m file_path = Some (JString (digest buf)) \<Longrightarrow>
   check_for_updates digest file_path w = Inr (False, w)"
  by (simp add: check_for_updates_def get_file_hash_def Let_def)

lemma check_for_updates_changed:
  "files w file_path = Some buf \<Longrightarrow> load_state w = JObject m \<Longrightarrow>
   m file_path \<noteq> Some (JString (digest buf)) \<Longrightarrow>
   check_for_updates digest file_path w
     = Inr (True, save_state (JObject (m(file_path \<mapsto> JString (digest buf)))) w)"
  by (simp add: check_for_updates_def get_file_hash_def Let_def)

text \<open>
  When \<open>state.json\<close> holds valid JSON that is not an object, the detector raises for every
  file that can be read.
\<close>

lemma check_for_updates_not_object:
  assumes "files w file_path = Some buf" and "\<forall>m. load_state w \<noteq> JObject m"
  shows "check_for_updates digest file_path w = Inl TypeError"
  using assms
  by (cases "load_state w") (auto simp: check_for_updates_def get_file_hash_def Let_def)

lemma main_from_check_again:
  assumes f: "files w xml_file = Some buf"
    and st: "load_state w = JObject m"
    and ok: "state_write w = WriteOk \<or> m xml_file = Some (JString (digest buf))"
  shows "main_from_check digest ingest xml_file (main_from_check digest ingest xml_file (w, db))
         = main_from_check digest ingest xml_file (w, db)"
proof (cases "m xml_file = Some (JString (digest buf))")
  case True
  with f st have "check_for_updates digest xml_file w = Inr (False, w)"
    by (rule check_for_updates_same)
  then have "main_from_check digest ingest xml_file (w, db) = (w, db)"
    by (simp add: main_from_check_def)
  then show ?thesis
    by simp
next
  case False
  let ?m1 = "m(xml_file \<mapsto> JString (digest buf))"
  let ?w1 = "save_state (JObject ?m1) w"
  from False ok have wr: "state_write w = WriteOk"
    by simp
  from f st False have "check_for_updates digest xml_file w = Inr (True, ?w1)"
    by (rule check_for_updates_changed)
  then have first: "main_from_check digest ingest xml_file (w, db) = (?w1, ingest xml_file db)"
    by (simp add: main_from_check_def)
  have "files ?w1 xml_file = Some buf"
    using f by (simp add: save_state_fields)
  moreover have "load_state ?w1 = JObject ?m1"
    using wr by (simp add: save_state_fields)
  moreover have "?m1 xml_file = Some (JString (digest buf))"
    by simp
  ultimately have "check_for_updates digest xml_file ?w1 = Inr (False, ?w1)"
    by (rule check_for_updates_same)
  then have "main_from_check digest ingest xml_file (?w1, ingest xml_file db)
      = (?w1, ingest xml_file db)"
    by (simp add: main_from_check_def)
  with first show ?thesis
    by simp
qed

text \<open>
  C2, as the code has it.  For a file that can be read and a state file that is missing,
  unusable or holds a JSON object: when the entry of the path in the stored mapping is
  the fresh hash, the detector returns false and the world is unchanged; otherwise it
  returns true after \<open>save_state\<close> has been given the mapping with the new fingerprint,
  before any processing, and the stored mapping is that mapping when the write succeeds,
  while a write that fails at \<open>open\<close> leaves the world as it was.  When the write
  succeeds, or nothing had to be written, a second run of the pipeline on the unchanged
  file changes neither the store nor the state file.
\<close>

theorem check_for_updates_gate:
  "(files w file_path = Some buf \<and> load_state w = JObject m \<and>
    m file_path = Some (JString (digest buf)) \<longrightarrow>
      check_for_updates digest file_path w = Inr (False, w)) \<and>
   (files w file_path = Some buf \<and> load_state w = JObject m \<and>
    m file_path \<noteq> Some (JString (digest buf)) \<longrightarrow>
      (\<exists>w1. check_for_updates digest file_path w = Inr (True, w1) \<and>
            w1 = save_state (JObject (m(file_path \<mapsto> JString (digest buf)))) w \<and>
            files w1 = files w \<and>
            (state_write w = WriteOk \<longrightarrow>
               load_state w1 = JObject (m(file_path \<mapsto> JString (digest buf)))) \<and>
            (state_write w = OpenFails \<longrightarrow> w1 = w) \<and>
            fst (main_from_check digest ingest file_path (w, db)) = w1)) \<and>
   (files w file_path = Some buf \<and> load_state w = JObject m \<and>
    (state_write w = WriteOk \<or> m file_path = Some (JString (digest buf))) \<longrightarrow>
      main_from_check digest ingest file_path (main_from_check digest ingest file_path (w, db))
        = main_from_check digest ingest file_path (w, db))"
proof -
  have a: "check_for_updates digest file_path w = Inr (False, w)"
    if "files w file_path = Some buf" "load_state w = JObject m"
      "m file_path = Some (JString (digest buf))"
    using that by (rule check_for_updates_same)
  have b: "\<exists>w1. check_for_updates digest file_path w = Inr (True, w1) \<and>
            w1 = save_state (JObject (m(file_path \<mapsto> JString (digest buf)))) w \<and>
            files w1 = files w \<and>
            (state_write w = WriteOk \<longrightarrow>
               load_state w1 = JObject (m(file_path \<mapsto> JString (digest buf)))) \<and>
            (state_write w = OpenFails \<longrightarrow> w1 = w) \<and>
            fst (main_from_check digest ingest file_path (w, db)) = w1"
    if "files w file_path = Some buf" "load_state w = JObject m"
      "m file_path \<noteq> Some (JString (digest buf))"
  proof -
    let ?w1 = "save_state (JObject (m(file_path \<mapsto> JString (digest buf)))) w"
    have c: "check_for_updates digest file_path w = Inr (True, ?w1)"
      using that by (rule check_for_updates_changed)
    then have "fst (main_from_check digest ingest file_path (w, db)) = ?w1"
      by (simp add: main_from_check_def)
    with c show ?thesis
      by (simp add: save_state_fields)
  qed
  have c: "main_from_check digest ingest file_path (main_from_check digest ingest file_path (w, db))
        = main_from_check digest ingest file_path (w, db)"
    if "files w file_path = Some buf" "load_state w = JObject m"
      "state_write w = WriteOk \<or> m file_path = Some (JString (digest buf))"
    using that by (rule main_from_check_again)
  from a b c show ?thesis
    by blast
qed

theorem check_for_updates_gate_witness:
  "files \<lparr> files = [asc ''cache/data.xml'' \<mapsto> [60, 97, 47, 62]], state_file = None,
           state_write = WriteOk \<rparr> (asc ''cache/data.xml'') = Some [60, 97, 47, 62] \<and>
   load_state \<lparr> files = [asc ''cache/data.xml'' \<mapsto> [60, 97, 47, 62]], state_file = None,
                state_write = WriteOk \<rparr> = JObject Map.empty \<and>
   Map.empty (asc ''cache/data.xml'') \<noteq> Some (JString (rev [60, 97, 47, 62])) \<and>
   main_from_check rev (\<lambda>f n. Suc n) (asc ''cache/data.xml'')
     (main_from_check rev (\<lambda>f n. Suc n) (asc ''cache/data.xml'')
        (\<lparr> files = [asc ''cache/data.xml'' \<mapsto> [60, 97, 47, 62]], state_file = None,
            state_write = WriteOk \<rparr>, 0::nat))
   = main_from_check rev (\<lambda>f n. Suc n) (asc ''cache/data.xml'')
        (\<lparr> files = [asc ''cache/data.xml'' \<mapsto> [60, 97, 47, 62]], state_file = None,
            state_write = WriteOk \<rparr>, 0::nat) \<and>
   snd (main_from_check rev (\<lambda>f n. Suc n) (asc ''cache/data.xml'')
        (\<lparr> files = [asc ''cache/data.xml'' \<mapsto> [60, 97, 47, 62]], state_file = None,
            state_write = WriteOk \<rparr>, 0::nat)) = 1 \<and>
   check_for_updates rev (asc ''cache/data.xml'')
     \<lparr> files = [asc ''cache/data.xml'' \<mapsto> [60, 97, 47, 62]],
       state_file = Some (JObject [asc ''cache/data.xml'' \<mapsto> JString [62, 47, 97, 60]]),
       state_write = WriteOk \<rparr>
   = Inr (False,
       \<lparr> files = [asc ''cache/data.xml'' \<mapsto> [60, 97, 47, 62]],
         state_file = Some (JObject [asc ''cache/data.xml'' \<mapsto> JString [62, 47, 97, 60]]),
         state_write = WriteOk \<rparr>)"
proof -
  let ?w = "\<lparr> files = [asc ''cache/data.xml'' \<mapsto> [60, 97, 47, 62]], state_file = None,
              state_write = WriteOk \<rparr>"
  let ?m2 = "[asc ''cache/data.xml'' \<mapsto> JString [62, 47, 97, 60]]"
  let ?w2 = "\<lparr> files = [asc ''cache/data.xml'' \<mapsto> [60, 97, 47, 62]],
               state_file = Some (JObject ?m2), state_write = WriteOk \<rparr>"
  have h1: "files ?w (asc ''cache/data.xml'') = Some [60, 97, 47, 62]"
    by simp
  have h2: "load_state ?w = JObject Map.empty"
    by (simp add: load_state_def)
  have h3: "state_write ?w = WriteOk"
    by simp
  have h4: "Map.empty (asc ''cache/data.xml'') \<noteq> Some (JString (rev [60, 97, 47, 62]))"
    by simp
  have again: "main_from_check rev (\<lambda>f n. Suc n) (asc ''cache/data.xml'')
          (main_from_check rev (\<lambda>f n. Suc n) (asc ''cache/data.xml'') (?w, 0::nat))
        = main_from_check rev (\<lambda>f n. Suc n) (asc ''cache/data.xml'') (?w, 0::nat)"
    using h1 h2 h3 check_for_updates_gate
      [where w = ?w and file_path = "asc ''cache/data.xml''" and buf = "[60, 97, 47, 62]"
         and digest = rev and ingest = "\<lambda>f n. Suc n" and db = "0::nat" and m = Map.empty]
    by blast
  have once: "snd (main_from_check rev (\<lambda>f n. Suc n) (asc ''cache/data.xml'') (?w, 0::nat)) = 1"
    by (simp add: main_from_check_def check_for_updates_def get_file_hash_def load_state_def
        Let_def)
  have g1: "files ?w2 (asc ''cache/data.xml'') = Some [60, 97, 47, 62]"
    by simp
  have g2: "load_state ?w2 = JObject ?m2"
    by (simp add: load_state_def)
  have g3: "?m2 (asc ''cache/data.xml'') = Some (JString (rev [60, 97, 47, 62]))"
    by simp
  have same: "check_for_updates rev (asc ''cache/data.xml'') ?w2 = Inr (False, ?w2)"
    using g1 g2 g3 check_for_updates_gate
      [where w = ?w2 and file_path = "asc ''cache/data.xml''" and buf = "[60, 97, 47, 62]"
         and digest = rev and m = ?m2 and ingest = "\<lambda>f n. Suc n" and db = "0::nat"]
    by blast
  from h1 h2 h4 again once same show ?thesis
    by blast
qed

text \<open>
  C2 as stated fails when the state file cannot be opened for writing: the stored
  fingerprint differs from the fresh hash, the detector returns true, and nothing is
  persisted; the second run on the unchanged file then ingests again.  (List reversal
  stands in for the digest, a counter for the store.)
\<close>

theorem check_for_updates_counterexample:
  "check_for_updates rev (asc ''cache/data.xml'')
     \<lparr> files = [asc ''cache/data.xml'' \<mapsto> [60, 97, 47, 62]], state_file = None,
       state_write = OpenFails \<rparr>
   = Inr (True, \<lparr> files = [asc ''cache/data.xml'' \<mapsto> [60, 97, 47, 62]], state_file = None,
                  state_write = OpenFails \<rparr>) \<and>
   snd (main_from_check rev (\<lambda>f n. Suc n) (asc ''cache/data.xml'')
     (\<lparr> files = [asc ''cache/data.xml'' \<mapsto> [60, 97, 47, 62]], state_file = None,
         state_write = OpenFails \<rparr>, 0::nat)) = 1 \<and>
   snd (main_from_check rev (\<lambda>f n. Suc n) (asc ''cache/data.xml'')
     (main_from_check rev (\<lambda>f n. Suc n) (asc ''cache/data.xml'')
        (\<lparr> files = [asc ''cache/data.xml'' \<mapsto> [60, 97, 47, 62]], state_file = None,
            state_write = OpenFails \<rparr>, 0::nat))) = 2"
  by (simp add: main_from_check_def check_for_updates_def get_file_hash_def load_state_def
      save_state_def Let_def)

section \<open>First driver: what a failure leaves behind\<close>

lemma store_prefix_refl: "store_prefix a a"
  by (simp add: store_prefix_def)

lemma store_prefix_trans: "store_prefix a b \<Longrightarrow> store_prefix b c \<Longrightarrow> store_prefix a c"
  by (auto simp: store_prefix_def)

lemma committed_steps:
  "committed (session_add x s) = committed s"
  "committed (flush_rows s) = committed s"
  "committed (tick s) = committed s"
  "committed (set_parent oid pid s) = committed s"
  "committed (session_rollback s) = committed s"
  by (simp_all add: session_add_def flush_rows_def tick_def set_parent_def session_rollback_def)

lemma session_flush_committed:
  "session_flush fault s = Inl (err, s1) \<Longrightarrow> committed s1 = committed s"
  "session_flush fault s = Inr s2 \<Longrightarrow> committed s2 = committed s"
  by (auto simp: session_flush_def committed_steps split: if_splits)

lemma session_query_committed:
  "session_query fault s = Inl (err, s1) \<Longrightarrow> committed s1 = committed s"
  "session_query fault s = Inr s2 \<Longrightarrow> committed s2 = committed s"
  by (auto simp: session_query_def committed_steps split: if_splits)

lemma link_branch_committed:
  "link_branch fault id_eq org s = Inl (err, s1) \<Longrightarrow> committed s1 = committed s"
  "link_branch fault id_eq org s = Inr s2 \<Longrightarrow> committed s2 = committed s"
  by (auto simp: link_branch_def committed_steps
      dest: session_query_committed split: if_splits sum.splits option.splits)

lemma query_program_committed:
  "query_program fault prog_elem s = Inl (err, s1) \<Longrightarrow> committed s1 = committed s"
  "query_program fault prog_elem s = Inr (prog, s2) \<Longrightarrow> committed s2 = committed s"
proof -
  let ?known = "level_code (py_lower (safe_text (find_child prog_elem (asc ''EduLevelName'')) []))"
  let ?first = "if ?known = None then Inr s else session_query fault s"
  have q: "query_program fault prog_elem s =
      (case ?first of
         Inl err \<Rightarrow> Inl err
       | Inr sa \<Rightarrow>
           (case session_query fault sa of
              Inl err \<Rightarrow> Inl err
            | Inr sb \<Rightarrow> Inr (process_program (ref sb) prog_elem, sb)))"
    by (simp add: query_program_def Let_def)
  have first: "committed sa = committed s" if "?first = Inr sa" for sa
    using that by (auto dest: session_query_committed split: if_splits)
  have first_err: "committed sa = committed s" if "?first = Inl (err, sa)" for sa
    using that by (auto dest: session_query_committed split: if_splits)
  show "committed s1 = committed s" if "query_program fault prog_elem s = Inl (err, s1)"
  proof (cases ?first)
    case (Inl a)
    with that q first_err show ?thesis
      by auto
  next
    case (Inr sa)
    with that q have "session_query fault sa = Inl (err, s1)"
      by (auto split: sum.splits)
    then have "committed s1 = committed sa"
      by (rule session_query_committed)
    with first [OF Inr] show ?thesis
      by simp
  qed
  show "committed s2 = committed s" if "query_program fault prog_elem s = Inr (prog, s2)"
  proof (cases ?first)
    case (Inl a)
    with that q show ?thesis
      by auto
  next
    case (Inr sa)
    with that q have "session_query fault sa = Inr s2"
      by (auto split: sum.splits)
    then have "committed s2 = committed sa"
      by (rule session_query_committed)
    with first [OF Inr] show ?thesis
      by simp
  qed
qed

lemma add_programs_committed:
  "add_programs fault oid elems s = Inl (err, s1) \<Longrightarrow> committed s1 = committed s"
  "add_programs fault oid elems s = Inr s2 \<Longrightarrow> committed s2 = committed s"
proof (induction elems arbitrary: s)
  case Nil
  { case 1 then show ?case by simp
  next
    case 2 then show ?case by simp }
next
  case (Cons p ps)
  { case 1
    show ?case
    proof (cases "query_program fault p s")
      case (Inl a)
      with 1 show ?thesis
        by (auto dest: query_program_committed)
    next
      case (Inr b)
      then obtain prog sa where b: "query_program fault p s = Inr (prog, sa)"
        by (cases b) auto
      let ?sb = "session_add (ProgEntity (prog\<lparr>prog_organization_id := oid\<rparr>)) sa"
      from 1 b have "add_programs fault oid ps ?sb = Inl (err, s1)"
        by simp
      then have "committed s1 = committed ?sb"
        by (rule Cons.IH(1))
      with b show ?thesis
        by (simp add: committed_steps query_program_committed)
    qed
  next
    case 2
    show ?case
    proof (cases "query_program fault p s")
      case (Inl a)
      with 2 show ?thesis
        by auto
    next
      case (Inr b)
      then obtain prog sa where b: "query_program fault p s = Inr (prog, sa)"
        by (cases b) auto
      let ?sb = "session_add (ProgEntity (prog\<lparr>prog_organization_id := oid\<rparr>)) sa"
      from 2 b have "add_programs fault oid ps ?sb = Inr s2"
        by simp
      then have "committed s2 = committed ?sb"
        by (rule Cons.IH(2))
      with b show ?thesis
        by (simp add: committed_steps query_program_committed)
    qed }
qed

lemma session_commit_committed:
  "session_commit fault s = Inl (err, s1) \<Longrightarrow> committed s1 = committed s"
  "session_commit fault s = Inr s2 \<Longrightarrow> store_prefix (committed s) (committed s2)"
  by (auto simp: session_commit_def Let_def committed_steps tick_def flush_rows_def
      store_prefix_def split: if_splits)

lemma periodic_commit_committed:
  "periodic_commit fault s = Inl (err, s1) \<Longrightarrow> committed s1 = committed s"
  "periodic_commit fault s = Inr s2 \<Longrightarrow> store_prefix (committed s) (committed s2)"
  by (auto simp: periodic_commit_def store_prefix_refl
      dest: session_commit_committed split: if_splits)

lemma certificate_body_failure:
  assumes "certificate_body fault id_eq cache e s = Inl (err, s1)"
  shows "committed s1 = committed s"
proof -
  from assms obtain org where
    body: "(case session_flush fault (session_add (OrgEntity org) s) of
               Inl err \<Rightarrow> Inl err
             | Inr s1 \<Rightarrow>
                 (case link_branch fault id_eq org s1 of
                    Inl err \<Rightarrow> Inl err
                  | Inr s2 \<Rightarrow>
                      (case add_programs fault (flushed_org_id s2) (program_elems e) s2 of
                         Inl err \<Rightarrow> Inl err
                       | Inr s3 \<Rightarrow> periodic_commit fault s3))) = Inl (err, s1)"
    by (auto simp: certificate_body_def split: option.splits if_splits)
  show ?thesis
  proof (cases "session_flush fault (session_add (OrgEntity org) s)")
    case (Inl a)
    with body show ?thesis
      by (auto dest: session_flush_committed simp: committed_steps)
  next
    case f: (Inr sa)
    then have ca: "committed sa = committed s"
      by (auto dest: session_flush_committed simp: committed_steps)
    show ?thesis
    proof (cases "link_branch fault id_eq org sa")
      case (Inl a)
      with body f ca show ?thesis
        by (auto dest: link_branch_committed)
    next
      case l: (Inr sb)
      then have cb: "committed sb = committed s"
        using ca by (auto dest: link_branch_committed)
      show ?thesis
      proof (cases "add_programs fault (flushed_org_id sb) (program_elems e) sb")
        case (Inl a)
        with body f l cb show ?thesis
          by (auto dest: add_programs_committed)
      next
        case p: (Inr sc)
        then have "committed sc = committed s"
          using cb by (auto dest: add_programs_committed)
        with body f l p show ?thesis
          by (auto dest: periodic_commit_committed)
      qed
    qed
  qed
qed

lemma certificate_body_success:
  assumes "certificate_body fault id_eq cache e s = Inr s2"
  shows "store_prefix (committed s) (committed s2)"
proof (cases "certificate_body fault id_eq cache e s = Inr s \<and> s2 = s")
  case True
  then show ?thesis
    by (simp add: store_prefix_refl)
next
  case False
  with assms obtain org sa sb sc where
    a: "session_flush fault (session_add (OrgEntity org) s) = Inr sa" and
    b: "link_branch fault id_eq org sa = Inr sb" and
    c: "add_programs fault (flushed_org_id sb) (program_elems e) sb = Inr sc" and
    d: "periodic_commit fault sc = Inr s2"
    by (auto simp: certificate_body_def split: option.splits if_splits sum.splits)
  from a have "committed sa = committed s"
    by (auto dest: session_flush_committed simp: committed_steps)
  moreover from b have "committed sb = committed sa"
    by (rule link_branch_committed)
  moreover from c have "committed sc = committed sb"
    by (rule add_programs_committed)
  moreover from d have "store_prefix (committed sc) (committed s2)"
    by (rule periodic_commit_committed)
  ultimately show ?thesis
    by simp
qed

lemma handle_certificate_committed:
  "store_prefix (committed s) (committed (handle_certificate fault id_eq cache e s))"
proof (cases "certificate_body fault id_eq cache e s")
  case (Inl a)
  then obtain err s1 where "certificate_body fault id_eq cache e s = Inl (err, s1)"
    by (cases a) auto
  then show ?thesis
    by (auto simp: handle_certificate_def committed_steps store_prefix_refl
        dest: certificate_body_failure)
next
  case (Inr s2)
  then show ?thesis
    by (auto simp: handle_certificate_def dest: certificate_body_success)
qed

lemma parse_loop_committed:
  "store_prefix (committed s) (committed (parse_loop fault id_eq cache events s))"
proof (induction events arbitrary: s)
  case Nil
  then show ?case
    by (simp add: store_prefix_refl)
next
  case (Cons e events)
  let ?s1 = "if suffix (asc ''Certificate'') (tag e)
             then handle_certificate fault id_eq cache e s else s"
  have "store_prefix (committed s) (committed ?s1)"
    by (simp add: handle_certificate_committed store_prefix_refl)
  moreover have "store_prefix (committed ?s1) (committed (parse_loop fault id_eq cache events ?s1))"
    by (rule Cons.IH)
  ultimately show ?case
    by (auto intro: store_prefix_trans)
qed

lemma parse_loop_append:
  "parse_loop fault id_eq cache (xs @ ys) s
   = parse_loop fault id_eq cache ys (parse_loop fault id_eq cache xs s)"
  by (induction xs arbitrary: s) simp_all

lemma parse_loop_failed_record:
  assumes "suffix (asc ''Certificate'') (tag e)"
    and "certificate_body fault id_eq cache e (parse_loop fault id_eq cache before s) = Inl (err, s1)"
  shows "parse_loop fault id_eq cache (before @ e # after) s
         = parse_loop fault id_eq cache after (session_rollback s1)"
  using assms by (simp add: parse_loop_append handle_certificate_def)

section \<open>Second driver: what a failure leaves behind\<close>

lemma committed_fold_add_mai: "committed_mai (fold add_mai xs s) = committed_mai s"
  by (induction xs arbitrary: s) (simp_all add: add_mai_def)

lemma commit_mai_committed:
  "commit_mai fault s = Inl (err, s1) \<Longrightarrow> committed_mai s1 = committed_mai s"
  "commit_mai fault s = Inr s2 \<Longrightarrow> prefix (committed_mai s) (committed_mai s2)"
  by (auto simp: commit_mai_def split: if_splits)

lemma certificate_body_mai_cases:
  "certificate_body_mai fault e s = Inl (UnmappedInstanceError, s) \<or>
   (\<exists>s5. committed_mai s5 = committed_mai s \<and>
      certificate_body_mai fault e s
        = (if length (new_mai s5) mod 100 = 0 then commit_mai fault s5 else Inr s5))"
proof (cases "process_organization_mai e")
  case None
  then show ?thesis
    by (simp add: certificate_body_mai_def)
next
  case (Some org)
  let ?cert = "process_certificate e org"
  let ?s2 = "add_mai (MCert ?cert) (add_mai (MOrg org) s)"
  let ?s3 = "if has_entrepreneur (entrepreneur_of e ?cert)
             then add_mai (MEntrepreneur (entrepreneur_of e ?cert)) ?s2 else ?s2"
  let ?s5 = "fold add_mai (map (\<lambda>d. MDecision (process_decision d ?cert)) (decision_elems e))
               (fold add_mai (supplement_entities e ?cert) ?s3)"
  have "committed_mai ?s5 = committed_mai s"
    by (simp add: committed_fold_add_mai add_mai_def)
  moreover have "certificate_body_mai fault e s
        = (if length (new_mai ?s5) mod 100 = 0 then commit_mai fault ?s5 else Inr ?s5)"
    using Some by (simp add: certificate_body_mai_def Let_def)
  ultimately show ?thesis
    by blast
qed

lemma certificate_body_mai_failure:
  assumes "certificate_body_mai fault e s = Inl (err, s1)"
  shows "committed_mai s1 = committed_mai s"
proof -
  from certificate_body_mai_cases [of fault e s] show ?thesis
  proof
    assume "certificate_body_mai fault e s = Inl (UnmappedInstanceError, s)"
    with assms show ?thesis
      by simp
  next
    assume "\<exists>s5. committed_mai s5 = committed_mai s \<and>
      certificate_body_mai fault e s
        = (if length (new_mai s5) mod 100 = 0 then commit_mai fault s5 else Inr s5)"
    then obtain s5 where c: "committed_mai s5 = committed_mai s"
      and b: "certificate_body_mai fault e s
        = (if length (new_mai s5) mod 100 = 0 then commit_mai fault s5 else Inr s5)"
      by blast
    from assms b have "commit_mai fault s5 = Inl (err, s1)"
      by (simp split: if_splits)
    then have "committed_mai s1 = committed_mai s5"
      by (rule commit_mai_committed)
    with c show ?thesis
      by simp
  qed
qed

lemma certificate_body_mai_success:
  assumes "certificate_body_mai fault e s = Inr s2"
  shows "prefix (committed_mai s) (committed_mai s2)"
proof -
  from certificate_body_mai_cases [of fault e s] show ?thesis
  proof
    assume "certificate_body_mai fault e s = Inl (UnmappedInstanceError, s)"
    with assms show ?thesis
      by simp
  next
    assume "\<exists>s5. committed_mai s5 = committed_mai s \<and>
      certificate_body_mai fault e s
        = (if length (new_mai s5) mod 100 = 0 then commit_mai fault s5 else Inr s5)"
    then obtain s5 where c: "committed_mai s5 = committed_mai s"
      and b: "certificate_body_mai fault e s
        = (if length (new_mai s5) mod 100 = 0 then commit_mai fault s5 else Inr s5)"
      by blast
    show ?thesis
    proof (cases "length (new_mai s5) mod 100 = 0")
      case True
      with assms b have "commit_mai fault s5 = Inr s2"
        by simp
      then have "prefix (committed_mai s5) (committed_mai s2)"
        by (rule commit_mai_committed)
      with c show ?thesis
        by simp
    next
      case False
      with assms b have "s2 = s5"
        by simp
      with c show ?thesis
        by simp
    qed
  qed
qed

lemma handle_certificate_mai_committed:
  "prefix (committed_mai s) (committed_mai (handle_certificate_mai fault e s))"
proof (cases "certificate_body_mai fault e s")
  case (Inl a)
  then obtain err s1 where "certificate_body_mai fault e s = Inl (err, s1)"
    by (cases a) auto
  then show ?thesis
    by (auto simp: handle_certificate_mai_def rollback_mai_def
        dest: certificate_body_mai_failure)
next
  case (Inr s2)
  then show ?thesis
    by (auto simp: handle_certificate_mai_def dest: certificate_body_mai_success)
qed

lemma parse_loop_mai_committed:
  "prefix (committed_mai s) (committed_mai (parse_loop_mai fault events s))"
proof (induction events arbitrary: s)
  case Nil
  then show ?case
    by simp
next
  case (Cons e events)
  let ?s1 = "if suffix (asc ''Certificate'') (tag e) then handle_certificate_mai fault e s else s"
  have "prefix (committed_mai s) (committed_mai ?s1)"
    by (simp add: handle_certificate_mai_committed)
  moreover have "prefix (committed_mai ?s1) (committed_mai (parse_loop_mai fault events ?s1))"
    by (rule Cons.IH)
  ultimately show ?case
    by (auto intro: prefix_order.trans)
qed

lemma parse_loop_mai_append:
  "parse_loop_mai fault (xs @ ys) s = parse_loop_mai fault ys (parse_loop_mai fault xs s)"
  by (induction xs arbitrary: s) simp_all

lemma parse_loop_mai_failed_record:
  assumes "suffix (asc ''Certificate'') (tag e)"
    and "certificate_body_mai fault e (parse_loop_mai fault before s) = Inl (err, s1)"
  shows "parse_loop_mai fault (before @ e # after) s
         = parse_loop_mai fault after (rollback_mai s1)"
  using assms by (simp add: parse_loop_mai_append handle_certificate_mai_def)

section \<open>Failure of one record\<close>

text \<open>
  C3.  In both drivers, for every stream of events, every way in which requests to the
  store fail, and every record whose processing raises (while it is built, flushed,
  queried for, or committed): the rows committed before are the rows committed when the
  exception is raised; the handler rolls back, which empties the rows written in the open
  transaction and the pending objects and leaves the committed rows alone; the loop goes
  on with the events after the record from that session; and the rows committed before
  are still there, in their place, when the loop has ended.
\<close>

theorem record_failure_is_isolated:
  "(suffix (asc ''Certificate'') (tag e) \<and>
    certificate_body fault id_eq cache e (parse_loop fault id_eq cache before s) = Inl (err, s1)
    \<longrightarrow>
      committed s1 = committed (parse_loop fault id_eq cache before s) \<and>
      committed (session_rollback s1) = committed s1 \<and>
      written (session_rollback s1) = empty_store \<and>
      session_new (session_rollback s1) = [] \<and>
      parse_loop fault id_eq cache (before @ e # after) s
        = parse_loop fault id_eq cache after (session_rollback s1) \<and>
      store_prefix (committed s1)
        (committed (parse_loop fault id_eq cache (before @ e # after) s))) \<and>
   (suffix (asc ''Certificate'') (tag e) \<and>
    certificate_body_mai fault e (parse_loop_mai fault before m) = Inl (err, m1)
    \<longrightarrow>
      committed_mai m1 = committed_mai (parse_loop_mai fault before m) \<and>
      committed_mai (rollback_mai m1) = committed_mai m1 \<and>
      new_mai (rollback_mai m1) = [] \<and>
      parse_loop_mai fault (before @ e # after) m
        = parse_loop_mai fault after (rollback_mai m1) \<and>
      prefix (committed_mai m1) (committed_mai (parse_loop_mai fault (before @ e # after) m)))"
proof -
  have a: "committed s1 = committed (parse_loop fault id_eq cache before s) \<and>
      committed (session_rollback s1) = committed s1 \<and>
      written (session_rollback s1) = empty_store \<and>
      session_new (session_rollback s1) = [] \<and>
      parse_loop fault id_eq cache (before @ e # after) s
        = parse_loop fault id_eq cache after (session_rollback s1) \<and>
      store_prefix (committed s1)
        (committed (parse_loop fault id_eq cache (before @ e # after) s))"
    if tg: "suffix (asc ''Certificate'') (tag e)"
      and f: "certificate_body fault id_eq cache e (parse_loop fault id_eq cache before s)
              = Inl (err, s1)"
  proof -
    have c: "committed s1 = committed (parse_loop fault id_eq cache before s)"
      using f by (rule certificate_body_failure)
    have l: "parse_loop fault id_eq cache (before @ e # after) s
        = parse_loop fault id_eq cache after (session_rollback s1)"
      using tg f by (rule parse_loop_failed_record)
    have "store_prefix (committed (session_rollback s1))
        (committed (parse_loop fault id_eq cache after (session_rollback s1)))"
      by (rule parse_loop_committed)
    then have "store_prefix (committed s1)
        (committed (parse_loop fault id_eq cache (before @ e # after) s))"
      by (simp add: l committed_steps)
    with c l show ?thesis
      by (simp add: session_rollback_def)
  qed
  have b: "committed_mai m1 = committed_mai (parse_loop_mai fault before m) \<and>
      committed_mai (rollback_mai m1) = committed_mai m1 \<and>
      new_mai (rollback_mai m1) = [] \<and>
      parse_loop_mai fault (before @ e # after) m
        = parse_loop_mai fault after (rollback_mai m1) \<and>
      prefix (committed_mai m1) (committed_mai (parse_loop_mai fault (before @ e # after) m))"
    if tg: "suffix (asc ''Certificate'') (tag e)"
      and f: "certificate_body_mai fault e (parse_loop_mai fault before m) = Inl (err, m1)"
  proof -
    have c: "committed_mai m1 = committed_mai (parse_loop_mai fault before m)"
      using f by (rule certificate_body_mai_failure)
    have l: "parse_loop_mai fault (before @ e # after) m
        = parse_loop_mai fault after (rollback_mai m1)"
      using tg f by (rule parse_loop_mai_failed_record)
    have "prefix (committed_mai (rollback_mai m1))
        (committed_mai (parse_loop_mai fault after (rollback_mai m1)))"
      by (rule parse_loop_mai_committed)
    then have "prefix (committed_mai m1)
        (committed_mai (parse_loop_mai fault (before @ e # after) m))"
      by (simp add: l rollback_mai_def)
    with c l show ?thesis
      by (simp add: rollback_mai_def)
  qed
  from a b show ?thesis
    by blast
qed

section \<open>The sample records in the first driver\<close>

lemma sample_tags:
  "suffix (asc ''Certificate'') (tag sample_university)"
  "suffix (asc ''Certificate'') (tag sample_no_organization)"
  "suffix (asc ''Certificate'') (tag sample_branch)"
  "suffix (asc ''Certificate'') (tag sample_school)"
  by (simp_all add: sample_university_def sample_no_organization_def sample_branch_def
      sample_school_def)

lemma sample_program_elems:
  "program_elems sample_university = []"
  "program_elems sample_branch = []"
  "program_elems sample_school = []"
  by (simp_all add: program_elems_def findall_desc_def sample_university_def sample_branch_def
      sample_school_def asc_def)

lemma sample_university_org:
  "\<exists>org. process_organization sample_university (org_types_cache (organization_types seed_refdata))
            [] = Some org \<and>
         org_IsBranch org = Some False \<and> \<not> filtered_out org \<and> org_type org \<noteq> None"
  by (simp add: process_organization_def sample_university_def find_child_def
      org_type_code_def Let_def safe_text_def safe_bool_def py_strip_def
      py_lower_def lower_cp_def is_space_def py_in_def school_markers_def higher_markers_def
      org_types_cache_def seed_refdata_def filtered_out_def asc_def sublist_code prefix_code)

text \<open>
  The university record in a session without open work: the flush is the request
  numbered by the clock, the commit the next one.
\<close>

lemma sample_university_commit_fails:
  assumes "written s = empty_store" and "session_new s = []" and "ref s = seed_refdata"
    and "\<not> fault (clock s)" and "fault (Suc (clock s))"
  shows "\<exists>s1. certificate_body fault id_eq (org_types_cache (organization_types seed_refdata))
               sample_university s = Inl (StoreError, s1) \<and>
             session_rollback s1 = s\<lparr>clock := Suc (Suc (clock s))\<rparr>"
proof -
  from sample_university_org obtain org where
    org: "process_organization sample_university
            (org_types_cache (organization_types seed_refdata)) [] = Some org"
    and nb: "org_IsBranch org = Some False" and keep: "\<not> filtered_out org"
    and ty: "org_type org \<noteq> None"
    by blast
  show ?thesis
    using assms nb keep ty
    by (simp add: certificate_body_def sample_program_elems org session_flush_def
        session_add_def tick_def flush_rows_def link_branch_def periodic_commit_def
        session_commit_def session_rollback_def)
qed

lemma sample_university_committed:
  assumes "written s = empty_store" and "session_new s = []" and "ref s = seed_refdata"
    and "\<not> fault (clock s)" and "\<not> fault (Suc (clock s))"
  shows "\<exists>s2. certificate_body fault id_eq (org_types_cache (organization_types seed_refdata))
               sample_university s = Inr s2 \<and>
             length (organizations (committed s2)) = Suc (length (organizations (committed s)))"
proof -
  from sample_university_org obtain org where
    org: "process_organization sample_university
            (org_types_cache (organization_types seed_refdata)) [] = Some org"
    and nb: "org_IsBranch org = Some False" and keep: "\<not> filtered_out org"
    and ty: "org_type org \<noteq> None"
    by blast
  show ?thesis
    using assms nb keep ty
    by (simp add: certificate_body_def sample_program_elems org session_flush_def
        session_add_def tick_def flush_rows_def link_branch_def periodic_commit_def
        session_commit_def Let_def empty_store_def)
qed

theorem record_failure_is_isolated_witness:
  "suffix (asc ''Certificate'') (tag sample_university) \<and>
   isl (certificate_body (\<lambda>k. k = 1) id_eq_decimal
          (org_types_cache (organization_types seed_refdata)) sample_university
          (parse_loop (\<lambda>k. k = 1) id_eq_decimal
             (org_types_cache (organization_types seed_refdata)) [] fresh_session)) \<and>
   length (organizations (committed
     (parse_loop (\<lambda>k. k = 1) id_eq_decimal (org_types_cache (organization_types seed_refdata))
        ([] @ sample_university # [sample_university]) fresh_session))) = 1 \<and>
   suffix (asc ''Certificate'') (tag sample_no_organization) \<and>
   isl (certificate_body_mai (\<lambda>k. False) sample_no_organization
          (parse_loop_mai (\<lambda>k. False) [] fresh_session_mai)) \<and>
   new_mai (parse_loop_mai (\<lambda>k. False) ([] @ sample_no_organization # []) fresh_session_mai) = []"
proof -
  let ?f = "\<lambda>k::nat. k = 1"
  let ?c = "org_types_cache (organization_types seed_refdata)"
  have "\<exists>s1. certificate_body ?f id_eq_decimal ?c sample_university fresh_session
           = Inl (StoreError, s1) \<and>
         session_rollback s1 = fresh_session\<lparr>clock := Suc (Suc (clock fresh_session))\<rparr>"
    by (rule sample_university_commit_fails) (simp_all add: fresh_session_def)
  then obtain s1 where
    b1: "certificate_body ?f id_eq_decimal ?c sample_university
           (parse_loop ?f id_eq_decimal ?c [] fresh_session) = Inl (StoreError, s1)"
    and r1: "session_rollback s1 = fresh_session\<lparr>clock := 2\<rparr>"
    by (auto simp: fresh_session_def)
  have l1: "parse_loop ?f id_eq_decimal ?c ([] @ sample_university # [sample_university])
              fresh_session
            = parse_loop ?f id_eq_decimal ?c [sample_university] (session_rollback s1)"
    using sample_tags(1) b1
      record_failure_is_isolated [where e = sample_university and fault = ?f
        and id_eq = id_eq_decimal and cache = ?c and before = "[]" and s = fresh_session
        and err = StoreError and ?s1.0 = s1 and after = "[sample_university]"]
    by blast
  have "\<exists>s2. certificate_body ?f id_eq_decimal ?c sample_university (fresh_session\<lparr>clock := 2\<rparr>)
           = Inr s2 \<and>
         length (organizations (committed s2))
           = Suc (length (organizations (committed (fresh_session\<lparr>clock := 2\<rparr>))))"
    by (rule sample_university_committed) (simp_all add: fresh_session_def)
  then obtain s2 where
    b2: "certificate_body ?f id_eq_decimal ?c sample_university (fresh_session\<lparr>clock := 2\<rparr>)
           = Inr s2"
    and n2: "length (organizations (committed s2)) = 1"
    by (auto simp: fresh_session_def empty_store_def)
  have "parse_loop ?f id_eq_decimal ?c [sample_university] (fresh_session\<lparr>clock := 2\<rparr>) = s2"
    using b2 by (simp add: sample_tags handle_certificate_def)
  then have a: "length (organizations (committed
     (parse_loop ?f id_eq_decimal ?c ([] @ sample_university # [sample_university])
        fresh_session))) = 1"
    using n2 by (simp only: l1 r1)
  have b3: "certificate_body_mai (\<lambda>k. False) sample_no_organization
          (parse_loop_mai (\<lambda>k. False) [] fresh_session_mai)
        = Inl (UnmappedInstanceError, fresh_session_mai)"
    by (simp add: certificate_body_mai_def process_organization_mai_def find_child_def
        sample_no_organization_def asc_def)
  have "new_mai (rollback_mai fresh_session_mai) = [] \<and>
        parse_loop_mai (\<lambda>k. False) ([] @ sample_no_organization # []) fresh_session_mai
          = parse_loop_mai (\<lambda>k. False) [] (rollback_mai fresh_session_mai)"
    using sample_tags(2) b3
      record_failure_is_isolated [where e = sample_no_organization and fault = "\<lambda>k. False"
        and before = "[]" and m = fresh_session_mai and err = UnmappedInstanceError
        and ?m1.0 = fresh_session_mai and after = "[]"]
    by blast
  then have c: "new_mai (parse_loop_mai (\<lambda>k. False) ([] @ sample_no_organization # [])
                  fresh_session_mai) = []"
    by simp
  from sample_tags(1,2) b1 a b3 c show ?thesis
    by simp
qed

section \<open>First driver: the output filter\<close>

lemma filtered_out_update:
  "filtered_out (org\<lparr>org_id := i\<rparr>) = filtered_out org"
  "filtered_out (org\<lparr>org_parent_id := p\<rparr>) = filtered_out org"
  by (simp_all add: filtered_out_def)

lemma fold_write_kept:
  "list_all (\<lambda>x. case x of OrgEntity org \<Rightarrow> \<not> filtered_out org | ProgEntity prog \<Rightarrow> True) pend
   \<Longrightarrow> list_all (\<lambda>org. \<not> filtered_out org) (organizations w)
   \<Longrightarrow> list_all (\<lambda>org. \<not> filtered_out org) (organizations (fold (write_entity c) pend w))"
proof (induction pend arbitrary: w)
  case Nil
  then show ?case
    by simp
next
  case (Cons x pend)
  show ?case
  proof (cases x)
    case (OrgEntity org)
    with Cons.prems have "list_all (\<lambda>org. \<not> filtered_out org)
        (organizations (write_entity c x w))"
      by (simp add: filtered_out_update)
    with Cons.prems Cons.IH show ?thesis
      by simp
  next
    case (ProgEntity prog)
    with Cons.prems have "list_all (\<lambda>org. \<not> filtered_out org)
        (organizations (write_entity c x w))"
      by simp
    with Cons.prems Cons.IH show ?thesis
      by simp
  qed
qed

lemma all_kept_steps:
  "all_kept s \<Longrightarrow> all_kept (flush_rows s)"
  "all_kept s \<Longrightarrow> all_kept (tick s)"
  "all_kept s \<Longrightarrow> all_kept (session_rollback s)"
  "all_kept s \<Longrightarrow> all_kept (set_parent oid pid s)"
  "all_kept s \<Longrightarrow> all_kept (session_add (ProgEntity prog) s)"
  "all_kept s \<Longrightarrow> \<not> filtered_out org \<Longrightarrow> all_kept (session_add (OrgEntity org) s)"
proof -
  show "all_kept s \<Longrightarrow> all_kept (flush_rows s)"
    by (simp add: all_kept_def visible_orgs_def flush_rows_def fold_write_kept)
  show "all_kept s \<Longrightarrow> all_kept (tick s)"
    by (simp add: all_kept_def visible_orgs_def tick_def)
  show "all_kept s \<Longrightarrow> all_kept (session_rollback s)"
    by (simp add: all_kept_def visible_orgs_def session_rollback_def empty_store_def)
  show "all_kept s \<Longrightarrow> all_kept (set_parent oid pid s)"
    by (auto simp: all_kept_def visible_orgs_def set_parent_def list_all_iff filtered_out_update)
  show "all_kept s \<Longrightarrow> all_kept (session_add (ProgEntity prog) s)"
    by (simp add: all_kept_def visible_orgs_def session_add_def)
  show "all_kept s \<Longrightarrow> \<not> filtered_out org \<Longrightarrow> all_kept (session_add (OrgEntity org) s)"
    by (simp add: all_kept_def visible_orgs_def session_add_def)
qed

lemma all_kept_flush: "all_kept s \<Longrightarrow> all_kept (outcome (session_flush fault s))"
  by (simp add: outcome_def session_flush_def all_kept_steps)

lemma all_kept_query: "all_kept s \<Longrightarrow> all_kept (outcome (session_query fault s))"
  by (simp add: outcome_def session_query_def all_kept_steps)

lemma all_kept_commit: "all_kept s \<Longrightarrow> all_kept (outcome (session_commit fault s))"
proof -
  assume k: "all_kept s"
  then have "all_kept (flush_rows s)"
    by (rule all_kept_steps)
  then have "all_kept (tick ((flush_rows s)\<lparr>committed :=
      \<lparr> organizations = organizations (committed (flush_rows s)) @ organizations (written (flush_rows s)),
        programs = programs (committed (flush_rows s)) @ programs (written (flush_rows s)) \<rparr>,
      written := empty_store\<rparr>))"
    by (simp add: all_kept_def visible_orgs_def tick_def empty_store_def)
  with k show ?thesis
    by (simp add: outcome_def session_commit_def Let_def all_kept_steps)
qed

lemma outcome_cases:
  "r = Inl (err, s1) \<Longrightarrow> outcome r = s1"
  "r = Inr s2 \<Longrightarrow> outcome r = s2"
  by (simp_all add: outcome_def)

lemma all_kept_link_branch:
  "all_kept s \<Longrightarrow> all_kept (outcome (link_branch fault id_eq org s))"
proof (cases "org_IsBranch org = Some True")
  case False
  assume "all_kept s"
  with False show ?thesis
    by (simp add: link_branch_def outcome_def)
next
  case True
  assume k: "all_kept s"
  then have q: "all_kept (outcome (session_query fault s))"
    by (rule all_kept_query)
  show ?thesis
  proof (cases "session_query fault s")
    case (Inl a)
    with True q show ?thesis
      by (simp add: link_branch_def outcome_def)
  next
    case (Inr s1)
    with q have "all_kept s1"
      by (simp add: outcome_def)
    with True Inr show ?thesis
      by (simp add: link_branch_def outcome_def all_kept_steps split: option.splits)
  qed
qed

lemma all_kept_query_program:
  assumes "all_kept s"
  shows "case query_program fault prog_elem s of
           Inl (err, s1) \<Rightarrow> all_kept s1 | Inr (prog, s2) \<Rightarrow> all_kept s2"
proof -
  let ?known = "level_code (py_lower (safe_text (find_child prog_elem (asc ''EduLevelName'')) []))"
  let ?first = "if ?known = None then Inr s else session_query fault s"
  have q: "query_program fault prog_elem s =
      (case ?first of
         Inl err \<Rightarrow> Inl err
       | Inr sa \<Rightarrow>
           (case session_query fault sa of
              Inl err \<Rightarrow> Inl err
            | Inr sb \<Rightarrow> Inr (process_program (ref sb) prog_elem, sb)))"
    by (simp add: query_program_def Let_def)
  have first: "all_kept (outcome ?first)"
    using assms by (simp add: all_kept_query) (simp add: outcome_def)
  show ?thesis
  proof (cases ?first)
    case (Inl a)
    with first q show ?thesis
      by (auto simp: outcome_def split: prod.splits)
  next
    case (Inr sa)
    with first have "all_kept sa"
      by (simp add: outcome_def)
    then have "all_kept (outcome (session_query fault sa))"
      by (rule all_kept_query)
    with Inr q show ?thesis
      by (auto simp: outcome_def split: sum.splits prod.splits)
  qed
qed

lemma all_kept_add_programs:
  "all_kept s \<Longrightarrow> all_kept (outcome (add_programs fault oid elems s))"
proof (induction elems arbitrary: s)
  case Nil
  then show ?case
    by (simp add: outcome_def)
next
  case (Cons p ps)
  from Cons.prems have q: "case query_program fault p s of
           Inl (err, s1) \<Rightarrow> all_kept s1 | Inr (prog, s2) \<Rightarrow> all_kept s2"
    by (rule all_kept_query_program)
  show ?case
  proof (cases "query_program fault p s")
    case (Inl a)
    with q show ?thesis
      by (auto simp: outcome_def split: prod.splits)
  next
    case (Inr b)
    then obtain prog sa where b: "query_program fault p s = Inr (prog, sa)"
      by (cases b) auto
    with q have "all_kept sa"
      by simp
    then have "all_kept (session_add (ProgEntity (prog\<lparr>prog_organization_id := oid\<rparr>)) sa)"
      by (rule all_kept_steps)
    then have "all_kept (outcome (add_programs fault oid ps
        (session_add (ProgEntity (prog\<lparr>prog_organization_id := oid\<rparr>)) sa)))"
      by (rule Cons.IH)
    with b show ?thesis
      by simp
  qed
qed

lemma all_kept_periodic_commit:
  "all_kept s \<Longrightarrow> all_kept (outcome (periodic_commit fault s))"
  by (simp add: periodic_commit_def all_kept_commit) (simp add: outcome_def)

lemma all_kept_certificate_body:
  assumes "all_kept s"
  shows "all_kept (outcome (certificate_body fault id_eq cache e s))"
proof (cases "certificate_body fault id_eq cache e s = Inr s")
  case True
  with assms show ?thesis
    by (simp add: outcome_def)
next
  case False
  then obtain org where
    keep: "\<not> filtered_out org" and
    body: "certificate_body fault id_eq cache e s =
      (case session_flush fault (session_add (OrgEntity org) s) of
         Inl err \<Rightarrow> Inl err
       | Inr s1 \<Rightarrow>
           (case link_branch fault id_eq org s1 of
              Inl err \<Rightarrow> Inl err
            | Inr s2 \<Rightarrow>
                (case add_programs fault (flushed_org_id s2) (program_elems e) s2 of
                   Inl err \<Rightarrow> Inl err
                 | Inr s3 \<Rightarrow> periodic_commit fault s3)))"
    by (auto simp: certificate_body_def split: option.splits if_splits)
  from assms keep have "all_kept (session_add (OrgEntity org) s)"
    by (rule all_kept_steps)
  then have f: "all_kept (outcome (session_flush fault (session_add (OrgEntity org) s)))"
    by (rule all_kept_flush)
  show ?thesis
  proof (cases "session_flush fault (session_add (OrgEntity org) s)")
    case (Inl a)
    with f body show ?thesis
      by simp
  next
    case fl: (Inr sa)
    with f have "all_kept sa"
      by (simp add: outcome_def)
    then have l: "all_kept (outcome (link_branch fault id_eq org sa))"
      by (rule all_kept_link_branch)
    show ?thesis
    proof (cases "link_branch fault id_eq org sa")
      case (Inl a)
      with l body fl show ?thesis
        by simp
    next
      case li: (Inr sb)
      with l have "all_kept sb"
        by (simp add: outcome_def)
      then have p: "all_kept (outcome (add_programs fault (flushed_org_id sb) (program_elems e) sb))"
        by (rule all_kept_add_programs)
      show ?thesis
      proof (cases "add_programs fault (flushed_org_id sb) (program_elems e) sb")
        case (Inl a)
        with p body fl li show ?thesis
          by simp
      next
        case (Inr sc)
        with p have "all_kept sc"
          by (simp add: outcome_def)
        then have "all_kept (outcome (periodic_commit fault sc))"
          by (rule all_kept_periodic_commit)
        with body fl li Inr show ?thesis
          by simp
      qed
    qed
  qed
qed

lemma all_kept_handle_certificate:
  assumes "all_kept s"
  shows "all_kept (handle_certificate fault id_eq cache e s)"
proof -
  from assms have k: "all_kept (outcome (certificate_body fault id_eq cache e s))"
    by (rule all_kept_certificate_body)
  show ?thesis
  proof (cases "certificate_body fault id_eq cache e s")
    case (Inl a)
    then obtain err s1 where a: "certificate_body fault id_eq cache e s = Inl (err, s1)"
      by (cases a) auto
    with k have "all_kept s1"
      by (simp add: outcome_def)
    then have "all_kept (session_rollback s1)"
      by (rule all_kept_steps)
    with a show ?thesis
      by (simp add: handle_certificate_def)
  next
    case (Inr s2)
    with k show ?thesis
      by (simp add: handle_certificate_def outcome_def)
  qed
qed

lemma all_kept_parse_loop:
  "all_kept s \<Longrightarrow> all_kept (parse_loop fault id_eq cache events s)"
  by (induction events arbitrary: s) (simp_all add: all_kept_handle_certificate)

lemma all_kept_statistics: "all_kept s \<Longrightarrow> all_kept (outcome (statistics fault s))"
proof -
  assume k: "all_kept s"
  then have q: "all_kept (outcome (session_query fault s))"
    by (rule all_kept_query)
  show ?thesis
  proof (cases "session_query fault s")
    case (Inl a)
    with q show ?thesis
      by (simp add: statistics_def)
  next
    case a: (Inr sa)
    with q have ka: "all_kept sa"
      by (simp add: outcome_def)
    then have qa: "all_kept (outcome (session_query fault sa))"
      by (rule all_kept_query)
    show ?thesis
    proof (cases "session_query fault sa")
      case (Inl b)
      with a ka qa show ?thesis
        by (simp add: statistics_def) (simp add: outcome_def)
    next
      case b: (Inr sb)
      with qa have "all_kept sb"
        by (simp add: outcome_def)
      then have "all_kept (outcome (session_query fault sb))"
        by (rule all_kept_query)
      with a b ka show ?thesis
        by (simp add: statistics_def) (simp add: outcome_def)
    qed
  qed
qed

lemma all_kept_parse_xml_to_db:
  assumes "all_kept s"
  shows "all_kept (snd (parse_xml_to_db fault id_eq doc s))"
proof -
  from assms have q: "all_kept (outcome (session_query fault s))"
    by (rule all_kept_query)
  show ?thesis
  proof (cases "session_query fault s")
    case (Inl a)
    then obtain err s0 where a: "session_query fault s = Inl (err, s0)"
      by (cases a) auto
    with q have "all_kept (session_rollback s0)"
      by (simp add: outcome_def all_kept_steps)
    with a show ?thesis
      by (simp add: parse_xml_to_db_def)
  next
    case a: (Inr s0)
    let ?s1 = "parse_loop fault id_eq (org_types_cache (organization_types (ref s0)))
                 (doc_events doc) s0"
    from a q have "all_kept s0"
      by (simp add: outcome_def)
    then have k1: "all_kept ?s1"
      by (rule all_kept_parse_loop)
    then have c: "all_kept (outcome (session_commit fault ?s1))"
      by (rule all_kept_commit)
    show ?thesis
    proof (cases "doc_malformed doc")
      case True
      with a k1 show ?thesis
        by (simp add: parse_xml_to_db_def Let_def all_kept_steps)
    next
      case wf: False
      show ?thesis
      proof (cases "session_commit fault ?s1")
        case (Inl b)
        then obtain err s2 where b: "session_commit fault ?s1 = Inl (err, s2)"
          by (cases b) auto
        with c have "all_kept (session_rollback s2)"
          by (simp add: outcome_def all_kept_steps)
        with a wf b show ?thesis
          by (simp add: parse_xml_to_db_def Let_def)
      next
        case b: (Inr s2)
        with c have "all_kept s2"
          by (simp add: outcome_def)
        then have st: "all_kept (outcome (statistics fault s2))"
          by (rule all_kept_statistics)
        show ?thesis
        proof (cases "statistics fault s2")
          case (Inl d)
          then obtain err s3 where d: "statistics fault s2 = Inl (err, s3)"
            by (cases d) auto
          with st have "all_kept (session_rollback s3)"
            by (simp add: outcome_def all_kept_steps)
          with a wf b d show ?thesis
            by (simp add: parse_xml_to_db_def Let_def)
        next
          case (Inr s3)
          with st a wf b show ?thesis
            by (simp add: parse_xml_to_db_def Let_def outcome_def)
        qed
      qed
    qed
  qed
qed

lemma org_types_cache_code: "org_types_cache rows c = Some t \<Longrightarrow> ot_code t = c"
  by (auto simp: org_types_cache_def dest!: map_of_SomeD)

lemma process_organization_type:
  "process_organization e cache progs = Some org \<Longrightarrow>
   org_type org = cache (org_type_code (org_TypeName org) progs) \<and> org_type org \<noteq> None"
  by (auto simp: process_organization_def Let_def split: option.splits)

text \<open>
  C5.  In the first variant, when every organization that the session holds passes the
  output filter, so does every one it holds after the loop, and so does every organization
  among the committed rows after \<open>parse_xml_to_db\<close>: its type has the code \<open>higher\<close> or its
  \<open>IsBranch\<close> is true.  A record whose organization fails the filter ends the body without
  an exception and with the session as it was.  For an organization built from the cache
  of the store, failing the filter means that the resolved type code is not \<open>higher\<close> and
  \<open>IsBranch\<close> is not true.
\<close>

theorem only_higher_or_branch_persisted:
  "(all_kept s \<longrightarrow>
      all_kept (parse_loop fault id_eq cache events s) \<and>
      list_all (\<lambda>org. (case org_type org of None \<Rightarrow> False | Some t \<Rightarrow> ot_code t = asc ''higher'')
                        \<or> org_IsBranch org = Some True)
        (organizations (committed (snd (parse_xml_to_db fault id_eq doc s))))) \<and>
   (process_organization e cache (program_elems e) = Some org \<and> filtered_out org \<longrightarrow>
      certificate_body fault id_eq cache e s = Inr s \<and>
      handle_certificate fault id_eq cache e s = s) \<and>
   (process_organization e (org_types_cache rows) progs = Some org \<longrightarrow>
      (filtered_out org \<longleftrightarrow>
         org_type_code (org_TypeName org) progs \<noteq> asc ''higher'' \<and> org_IsBranch org \<noteq> Some True))"
proof -
  have a: "all_kept (parse_loop fault id_eq cache events s) \<and>
      list_all (\<lambda>org. (case org_type org of None \<Rightarrow> False | Some t \<Rightarrow> ot_code t = asc ''higher'')
                        \<or> org_IsBranch org = Some True)
        (organizations (committed (snd (parse_xml_to_db fault id_eq doc s))))"
    if k: "all_kept s"
  proof -
    from k have "all_kept (snd (parse_xml_to_db fault id_eq doc s))"
      by (rule all_kept_parse_xml_to_db)
    then have "list_all (\<lambda>org. \<not> filtered_out org)
        (organizations (committed (snd (parse_xml_to_db fault id_eq doc s))))"
      by (simp add: all_kept_def visible_orgs_def)
    then have "list_all (\<lambda>org. (case org_type org of None \<Rightarrow> False
                                  | Some t \<Rightarrow> ot_code t = asc ''higher'')
                        \<or> org_IsBranch org = Some True)
        (organizations (committed (snd (parse_xml_to_db fault id_eq doc s))))"
      by (auto simp: list_all_iff filtered_out_def split: option.splits)
    with k show ?thesis
      by (simp add: all_kept_parse_loop)
  qed
  have b: "certificate_body fault id_eq cache e s = Inr s \<and>
      handle_certificate fault id_eq cache e s = s"
    if "process_organization e cache (program_elems e) = Some org" "filtered_out org"
    using that by (simp add: certificate_body_def handle_certificate_def)
  have c: "filtered_out org \<longleftrightarrow>
         org_type_code (org_TypeName org) progs \<noteq> asc ''higher'' \<and> org_IsBranch org \<noteq> Some True"
    if p: "process_organization e (org_types_cache rows) progs = Some org"
  proof -
    have ty: "org_type org = org_types_cache rows (org_type_code (org_TypeName org) progs)"
      and "org_type org \<noteq> None"
      using process_organization_type [OF p] by blast+
    then obtain t where t: "org_type org = Some t"
      by auto
    with ty have "org_types_cache rows (org_type_code (org_TypeName org) progs) = Some t"
      by simp
    then have "ot_code t = org_type_code (org_TypeName org) progs"
      by (auto dest: org_types_cache_code)
    with t show ?thesis
      by (simp add: filtered_out_def)
  qed
  from a b c show ?thesis
    by blast
qed

lemma sample_school_org:
  "\<exists>org. process_organization sample_school (org_types_cache (organization_types seed_refdata))
            [] = Some org \<and> filtered_out org"
  by (simp add: process_organization_def sample_school_def find_child_def
      org_type_code_def Let_def safe_text_def safe_bool_def py_strip_def
      py_lower_def lower_cp_def is_space_def py_in_def school_markers_def
      org_types_cache_def seed_refdata_def filtered_out_def asc_def sublist_code prefix_code)

theorem only_higher_or_branch_persisted_witness:
  "all_kept fresh_session \<and>
   list_all (\<lambda>org. (case org_type org of None \<Rightarrow> False | Some t \<Rightarrow> ot_code t = asc ''higher'')
                     \<or> org_IsBranch org = Some True)
     (organizations (committed (snd (parse_xml_to_db no_fault id_eq_decimal
        \<lparr> doc_events = [sample_school, sample_university, sample_branch], doc_malformed = False \<rparr>
        fresh_session)))) \<and>
   certificate_body no_fault id_eq_decimal (org_types_cache (organization_types seed_refdata))
     sample_school fresh_session = Inr fresh_session"
proof -
  have k: "all_kept fresh_session"
    by (simp add: all_kept_def fresh_session_def visible_orgs_def empty_store_def)
  from sample_school_org obtain org where
    "process_organization sample_school (org_types_cache (organization_types seed_refdata))
       (program_elems sample_school) = Some org" and "filtered_out org"
    by (auto simp: sample_program_elems)
  then have "certificate_body no_fault id_eq_decimal
      (org_types_cache (organization_types seed_refdata)) sample_school fresh_session
      = Inr fresh_session"
    using only_higher_or_branch_persisted
      [where e = sample_school and cache = "org_types_cache (organization_types seed_refdata)"
         and org = org and s = fresh_session and fault = no_fault and id_eq = id_eq_decimal]
    by blast
  with k show ?thesis
    using only_higher_or_branch_persisted
      [where s = fresh_session and fault = no_fault and id_eq = id_eq_decimal
         and doc = "\<lparr> doc_events = [sample_school, sample_university, sample_branch],
                      doc_malformed = False \<rparr>"]
    by blast
qed

section \<open>The parent of a branch\<close>





















section \<open>The first driver when no request fails\<close>










section \<open>The parent link of a branch\<close>













end
